theory Spec2Isabelle
  imports Main
begin

section \<open>The relay server of \<open>server.js\<close>: data model\<close>

text \<open>
  The server keeps a table of rooms, each with two player slots, a set of spectators, a
  queue of spectator device ids, one reclaim token, one lease expiry and one lease timer
  per slot, the last snapshot and a cleanup timer. The model follows the source
  handler by handler. What it takes from the environment:
  \<^item> a connection object \<open>ws\<close> is named by a natural number; its fields are kept in the
    table \<open>conns\<close> (the heartbeat field \<open>isAlive\<close> plays no part in rooms and is left out);
  \<^item> \<open>Date.now()\<close> is one integer per handled event, passed to the handler as \<open>now\<close>;
  \<^item> \<open>setTimeout\<close> returns a fresh handle (a number), the pending timers are a table from
    handles to the due time and the callback, \<open>clearTimeout\<close> removes the entry; how the
    host runtime rounds or clamps a delay is outside the model;
  \<^item> the fields \<open>room\<close>, \<open>deviceId\<close>, \<open>text\<close> and \<open>time\<close> of a client message are a string
    or absent (\<open>String(...)\<close> of other JSON values is not modelled), and room ids are
    taken not to collide with the property names every JavaScript object inherits;
  \<^item> what a handler sends is returned as a list of deliveries \<open>(ws, message)\<close>, in order;
    a message object stands for its JSON text.
\<close>

datatype json =
    JNull
  | JBool bool
  | JNum int
  | JStr string
  | JArr "json list"
  | JObj "(string \<times> json) list"

datatype js_type = T_object | T_boolean | T_number | T_string

definition js_typeof :: "json \<Rightarrow> js_type" where
  "js_typeof v = (case v of
       JNull \<Rightarrow> T_object
     | JBool _ \<Rightarrow> T_boolean
     | JNum _ \<Rightarrow> T_number
     | JStr _ \<Rightarrow> T_string
     | JArr _ \<Rightarrow> T_object
     | JObj _ \<Rightarrow> T_object)"

definition js_truthy :: "json \<Rightarrow> bool" where
  "js_truthy v = (case v of
       JNull \<Rightarrow> False
     | JBool b \<Rightarrow> b
     | JNum n \<Rightarrow> n \<noteq> 0
     | JStr s \<Rightarrow> s \<noteq> []
     | JArr _ \<Rightarrow> True
     | JObj _ \<Rightarrow> True)"

text \<open>\<open>x || d\<close> on a field that is a string or absent: the empty string is falsy.\<close>

definition str_or :: "string option \<Rightarrow> string \<Rightarrow> string" where
  "str_or x d = (case x of None \<Rightarrow> d | Some v \<Rightarrow> if v = [] then d else v)"

datatype readyState = CONNECTING | OPEN | CLOSING | CLOSED

record ws =
  readyState :: readyState
  roomId :: "string option"
  roleIdx :: "nat option"
  deviceId :: "string option"

record room =
  slots :: "nat option list"
  spectators :: "nat list"
  specQueue :: "string list"
  playerToken :: "string option list"
  playerLeaseExpiry :: "int list"
  playerLeaseTimer :: "nat option list"
  state :: "json option"
  lastUpdated :: int
  cleanupTimer :: "nat option"

text \<open>
  \<open>spectators\<close> is a JavaScript \<open>Set\<close>: it iterates in insertion order, \<open>add\<close> of a member
  changes nothing, \<open>delete\<close> removes the member. It is a list here, with these two
  operations.
\<close>

definition Set_add :: "nat \<Rightarrow> nat list \<Rightarrow> nat list" where
  "Set_add w xs = (if w \<in> set xs then xs else xs @ [w])"

definition Set_delete :: "nat \<Rightarrow> nat list \<Rightarrow> nat list" where
  "Set_delete w xs = removeAll w xs"

datatype timer_callback =
    LeaseExpire string nat
  | RoomCleanup nat

record timer =
  due :: int
  callback :: timer_callback

datatype label = P1 | P2 | Kansen "nat option"

datatype server_msg =
    Role nat
  | SyncStateMsg json
  | ChatMsg label string "string option"

type_synonym delivery = "nat \<times> server_msg"

record server =
  ROLE_LEASE_MS :: int
  rooms :: "string \<rightharpoonup> room"
  conns :: "nat \<Rightarrow> ws"
  timers :: "nat \<rightharpoonup> timer"
  next_timer :: nat

text \<open>
  \<open>ROLE_LEASE_MS = parseInt(process.env.ROLE_LEASE_MS || "90000", 10)\<close>; the environment
  variable is taken as already parsed, \<open>None\<close> when it is unset or empty.
\<close>

definition init_server :: "int option \<Rightarrow> server" where
  "init_server env =
     \<lparr> ROLE_LEASE_MS = (case env of None \<Rightarrow> 90000 | Some n \<Rightarrow> n),
       rooms = Map.empty,
       conns = (\<lambda>_. \<lparr> readyState = CONNECTING, roomId = None, roleIdx = None, deviceId = None \<rparr>),
       timers = Map.empty,
       next_timer = 0 \<rparr>"

text \<open>\<open>rooms[ws.roomId]\<close>: a \<open>null\<close> key is the property name \<open>"null"\<close>.\<close>

definition room_key :: "string option \<Rightarrow> string" where
  "room_key k = (case k of None \<Rightarrow> ''null'' | Some s \<Rightarrow> s)"

definition put_room :: "server \<Rightarrow> string \<Rightarrow> room \<Rightarrow> server" where
  "put_room s k room = s\<lparr> rooms := (rooms s)(k \<mapsto> room) \<rparr>"

definition clearTimeout :: "nat option \<Rightarrow> (nat \<rightharpoonup> timer) \<Rightarrow> (nat \<rightharpoonup> timer)" where
  "clearTimeout h tm = (case h of None \<Rightarrow> tm | Some i \<Rightarrow> tm(i := None))"

section \<open>The functions of the source\<close>

definition new_room :: "int \<Rightarrow> room" where
  "new_room now =
     \<lparr> slots = [None, None],
       spectators = [],
       specQueue = [],
       playerToken = [None, None],
       playerLeaseExpiry = [0, 0],
       playerLeaseTimer = [None, None],
       state = None,
       lastUpdated = now,
       cleanupTimer = None \<rparr>"

definition getOrCreateRoom :: "server \<Rightarrow> string \<Rightarrow> int \<Rightarrow> server \<times> room" where
  "getOrCreateRoom s k now =
     (case rooms s k of
        None \<Rightarrow> (put_room s k (new_room now), new_room now)
      | Some room \<Rightarrow> (s, room))"

definition send :: "server \<Rightarrow> nat \<Rightarrow> server_msg \<Rightarrow> delivery list" where
  "send s w obj = (if readyState (conns s w) = OPEN then [(w, obj)] else [])"

text \<open>The recurring line \<open>if (room.state) send(ws, { type: "syncState", state: room.state })\<close>.\<close>

definition send_snapshot :: "server \<Rightarrow> nat \<Rightarrow> room \<Rightarrow> delivery list" where
  "send_snapshot s w room =
     (case state room of
        None \<Rightarrow> []
      | Some st \<Rightarrow> if js_truthy st then send s w (SyncStateMsg st) else [])"

definition broadcast :: "server \<Rightarrow> string \<Rightarrow> server_msg \<Rightarrow> delivery list" where
  "broadcast s k obj =
     (case rooms s k of
        None \<Rightarrow> []
      | Some room \<Rightarrow>
          let payload = obj;
              targets = List.map_filter id ([slots room ! 0, slots room ! 1] @ map Some (spectators room))
          in map (\<lambda>peer. (peer, payload))
                 (filter (\<lambda>peer. readyState (conns s peer) = OPEN) targets))"

text \<open>
  The helpers that take the room object work on the pair of that room and the rest of
  the server (connection fields and timers); the handler stores the room back.
\<close>

definition assignRole :: "nat \<Rightarrow> nat \<Rightarrow> room \<times> server \<Rightarrow> room \<times> server" where
  "assignRole r w = (\<lambda>(room, s).
     (room\<lparr> slots := (slots room)[r := Some w],
            playerToken := (playerToken room)[r :=
               (case deviceId (conns s w) of
                  None \<Rightarrow> None
                | Some d \<Rightarrow> if d = [] then None else Some d)],
            playerLeaseExpiry := (playerLeaseExpiry room)[r := 0],
            playerLeaseTimer := (playerLeaseTimer room)[r := None] \<rparr>,
      s\<lparr> conns := (conns s)(w := (conns s w)\<lparr> roleIdx := Some r \<rparr>),
         timers := clearTimeout (playerLeaseTimer room ! r) (timers s) \<rparr>))"

definition enqueueSpectator :: "server \<Rightarrow> nat \<Rightarrow> room \<Rightarrow> room" where
  "enqueueSpectator s w room =
     room\<lparr> spectators := Set_add w (spectators room),
           specQueue :=
             (case deviceId (conns s w) of
                None \<Rightarrow> specQueue room
              | Some d \<Rightarrow> if d \<noteq> [] \<and> d \<notin> set (specQueue room)
                          then specQueue room @ [d] else specQueue room) \<rparr>"

text \<open>The inner \<open>for\<close> loop of \<open>dequeueNextLiveSpectator\<close>: the first open spectator, in the
  order of the set, whose device id is \<open>dev\<close>.\<close>

definition live_spectator :: "(nat \<Rightarrow> ws) \<Rightarrow> room \<Rightarrow> string \<Rightarrow> nat option" where
  "live_spectator cs room dev =
     List.find (\<lambda>p. readyState (cs p) = OPEN \<and> deviceId (cs p) = Some dev) (spectators room)"

function dequeueNextLiveSpectator :: "(nat \<Rightarrow> ws) \<Rightarrow> room \<Rightarrow> nat option \<times> room" where
  "dequeueNextLiveSpectator cs room =
     (case specQueue room of
        [] \<Rightarrow> (None, room)
      | dev # rest \<Rightarrow>
          (case live_spectator cs room dev of
             Some p \<Rightarrow> (Some p, room\<lparr> specQueue := rest,
                                      spectators := Set_delete p (spectators room) \<rparr>)
           | None \<Rightarrow> dequeueNextLiveSpectator cs (room\<lparr> specQueue := rest \<rparr>)))"
  by pat_completeness auto
termination
  by (relation "measure (\<lambda>(cs, room). length (specQueue room))") auto

declare dequeueNextLiveSpectator.simps [simp del]

definition onLeaseExpire :: "server \<Rightarrow> string \<Rightarrow> nat \<Rightarrow> server \<times> delivery list" where
  "onLeaseExpire s k r =
     (case rooms s k of
        None \<Rightarrow> (s, [])
      | Some room \<Rightarrow>
          if slots room ! r = None then
            (case dequeueNextLiveSpectator (conns s) room of
               (Some p, room1) \<Rightarrow>
                 let (room2, s2) = assignRole r p (room1, s);
                     s3 = put_room s2 k room2
                 in (s3, send s3 p (Role r) @ send_snapshot s3 p room2)
             | (None, room1) \<Rightarrow>
                 (put_room s k
                    (room1\<lparr> playerToken := (playerToken room1)[r := None],
                            playerLeaseExpiry := (playerLeaseExpiry room1)[r := 0],
                            playerLeaseTimer := (playerLeaseTimer room1)[r := None] \<rparr>), []))
          else (s, []))"

definition startLeaseTimer :: "server \<Rightarrow> string \<Rightarrow> nat \<Rightarrow> int \<Rightarrow> server" where
  "startLeaseTimer s k r now =
     (case rooms s k of
        None \<Rightarrow> s
      | Some room \<Rightarrow>
          let tm = clearTimeout (playerLeaseTimer room ! r) (timers s);
              h = next_timer s
          in s\<lparr> rooms := (rooms s)(k \<mapsto>
                  room\<lparr> playerLeaseExpiry := (playerLeaseExpiry room)[r := now + ROLE_LEASE_MS s],
                        playerLeaseTimer := (playerLeaseTimer room)[r := Some h] \<rparr>),
                timers := tm(h \<mapsto> \<lparr> due = now + ROLE_LEASE_MS s, callback = LeaseExpire k r \<rparr>),
                next_timer := Suc h \<rparr>)"

section \<open>The handlers\<close>

datatype client_msg =
    Join "string option" "string option"
  | RequestState
  | SyncState "json option"
  | Chat "string option" "string option"
  | Other

definition on_connection :: "server \<Rightarrow> nat \<Rightarrow> server" where
  "on_connection s w =
     s\<lparr> conns := (conns s)(w := \<lparr> readyState = OPEN, roomId = None, roleIdx = None, deviceId = None \<rparr>) \<rparr>"

text \<open>The two loop conditions of the join handler.\<close>

definition reclaim_ok :: "room \<Rightarrow> nat \<Rightarrow> string \<Rightarrow> int \<Rightarrow> bool" where
  "reclaim_ok room r dev now \<longleftrightarrow>
     slots room ! r = None \<and>
     (case playerToken room ! r of None \<Rightarrow> False | Some t \<Rightarrow> t \<noteq> []) \<and>
     playerToken room ! r = Some dev \<and>
     (playerLeaseExpiry room ! r = 0 \<or> now < playerLeaseExpiry room ! r)"

definition fresh_ok :: "room \<Rightarrow> nat \<Rightarrow> int \<Rightarrow> bool" where
  "fresh_ok room r now \<longleftrightarrow>
     slots room ! r = None \<and>
     (playerLeaseExpiry room ! r = 0 \<or> now \<ge> playerLeaseExpiry room ! r)"

text \<open>The body shared by both loops: seat, acknowledge, send the snapshot, return.\<close>

definition seat :: "server \<Rightarrow> string \<Rightarrow> room \<Rightarrow> nat \<Rightarrow> nat \<Rightarrow> server \<times> delivery list" where
  "seat s k room r w =
     (let (room1, s1) = assignRole r w (room, s);
          s2 = put_room s1 k room1
      in (s2, send s2 w (Role r) @ send_snapshot s2 w room1))"

definition on_join :: "server \<Rightarrow> nat \<Rightarrow> string option \<Rightarrow> string option \<Rightarrow> int \<Rightarrow> server \<times> delivery list" where
  "on_join s0 w mroom mdev now =
     (let k = str_or mroom ''room1'';
          dev = str_or mdev [];
          (s1, room) = getOrCreateRoom s0 k now;
          s = s1\<lparr> conns := (conns s1)(w := (conns s1 w)\<lparr> roomId := Some k, deviceId := Some dev \<rparr>) \<rparr>
      in case List.find (\<lambda>r. reclaim_ok room r dev now) [0, 1] of
           Some r \<Rightarrow> seat s k room r w
         | None \<Rightarrow>
            (case List.find (\<lambda>r. fresh_ok room r now) [0, 1] of
               Some r \<Rightarrow> seat s k room r w
             | None \<Rightarrow>
                 let room1 = enqueueSpectator s w room;
                     idx = 2 + length (spectators room1) - 1;
                     s2 = put_room (s\<lparr> conns := (conns s)(w := (conns s w)\<lparr> roleIdx := Some idx \<rparr>) \<rparr>) k room1
                 in (s2, send s2 w (Role idx) @ send_snapshot s2 w room1)))"

definition on_request_state :: "server \<Rightarrow> nat \<Rightarrow> server \<times> delivery list" where
  "on_request_state s w =
     (case rooms s (room_key (roomId (conns s w))) of
        None \<Rightarrow> (s, [])
      | Some room \<Rightarrow> (s, send_snapshot s w room))"

definition on_syncState :: "server \<Rightarrow> nat \<Rightarrow> json option \<Rightarrow> int \<Rightarrow> server \<times> delivery list" where
  "on_syncState s w mstate now =
     (let k = room_key (roomId (conns s w)) in
      case rooms s k of
        None \<Rightarrow> (s, [])
      | Some room \<Rightarrow>
          if roleIdx (conns s w) = Some 0 \<or> roleIdx (conns s w) = Some 1 then
            (case mstate of
               None \<Rightarrow> (s, [])
             | Some st \<Rightarrow>
                 if js_truthy st \<and> js_typeof st = T_object then
                   let s1 = put_room s k (room\<lparr> state := Some st, lastUpdated := now \<rparr>)
                   in (s1, broadcast s1 k (SyncStateMsg st))
                 else (s, []))
          else (s, []))"

definition chat_label :: "nat option \<Rightarrow> label" where
  "chat_label i = (if i = Some 0 then P1 else if i = Some 1 then P2 else Kansen i)"

definition on_chat :: "server \<Rightarrow> nat \<Rightarrow> string option \<Rightarrow> string option \<Rightarrow> server \<times> delivery list" where
  "on_chat s w mtext mtime =
     (let k = room_key (roomId (conns s w)) in
      case rooms s k of
        None \<Rightarrow> (s, [])
      | Some room \<Rightarrow>
          (s, broadcast s k
                (ChatMsg (chat_label (roleIdx (conns s w))) (str_or mtext [])
                         (case mtime of None \<Rightarrow> None | Some t \<Rightarrow> if t = [] then None else Some t))))"

definition on_message :: "server \<Rightarrow> nat \<Rightarrow> client_msg \<Rightarrow> int \<Rightarrow> server \<times> delivery list" where
  "on_message s w msg now =
     (case msg of
        Join mroom mdev \<Rightarrow> on_join s w mroom mdev now
      | RequestState \<Rightarrow> on_request_state s w
      | SyncState mstate \<Rightarrow> on_syncState s w mstate now
      | Chat mtext mtime \<Rightarrow> on_chat s w mtext mtime
      | Other \<Rightarrow> (s, []))"

text \<open>The close handler: first the player or spectator branch, then the count of peers and
  the cleanup timer.\<close>

definition is_player :: "nat option \<Rightarrow> bool" where
  "is_player i \<longleftrightarrow> i = Some 0 \<or> i = Some 1"

definition close_leave :: "server \<Rightarrow> nat \<Rightarrow> string \<Rightarrow> room \<Rightarrow> int \<Rightarrow> server" where
  "close_leave s w k room now =
     (case roleIdx (conns s w) of
        Some r \<Rightarrow>
          if r = 0 \<or> r = 1 then
            (if slots room ! r = Some w
             then startLeaseTimer (put_room s k (room\<lparr> slots := (slots room)[r := None] \<rparr>)) k r now
             else s)
          else put_room s k (room\<lparr> spectators := Set_delete w (spectators room) \<rparr>)
      | None \<Rightarrow> put_room s k (room\<lparr> spectators := Set_delete w (spectators room) \<rparr>))"

definition peers :: "room \<Rightarrow> nat" where
  "peers room =
     (if slots room ! 0 \<noteq> None then 1 else 0) + (if slots room ! 1 \<noteq> None then 1 else 0)
       + length (spectators room)"

definition TTL :: int where
  "TTL = 15 * 60 * 1000"

definition close_cleanup :: "server \<Rightarrow> nat \<Rightarrow> string \<Rightarrow> int \<Rightarrow> server" where
  "close_cleanup s w k now =
     (case rooms s k of
        None \<Rightarrow> s
      | Some room \<Rightarrow>
          if peers room = 0 then
            let tm = clearTimeout (cleanupTimer room) (timers s);
                h = next_timer s
            in s\<lparr> rooms := (rooms s)(k \<mapsto> room\<lparr> cleanupTimer := Some h \<rparr>),
                  timers := tm(h \<mapsto> \<lparr> due = now + TTL, callback = RoomCleanup w \<rparr>),
                  next_timer := Suc h \<rparr>
          else s)"

definition on_close :: "server \<Rightarrow> nat \<Rightarrow> int \<Rightarrow> server" where
  "on_close s w now =
     (let k = room_key (roomId (conns s w)) in
      case rooms s k of
        None \<Rightarrow> s
      | Some room \<Rightarrow> close_cleanup (close_leave s w k room now) w k now)"

text \<open>A timer that comes due leaves the table of pending timers and runs its callback. The
  cleanup callback reads \<open>ws.roomId\<close> when it runs.\<close>

definition on_timeout :: "server \<Rightarrow> nat \<Rightarrow> server \<times> delivery list" where
  "on_timeout s h =
     (case timers s h of
        None \<Rightarrow> (s, [])
      | Some t \<Rightarrow>
          let s1 = s\<lparr> timers := (timers s)(h := None) \<rparr> in
          (case callback t of
             LeaseExpire k r \<Rightarrow> onLeaseExpire s1 k r
           | RoomCleanup w \<Rightarrow>
               (s1\<lparr> rooms := (rooms s1)(room_key (roomId (conns s1 w)) := None) \<rparr>, [])))"

section \<open>Events and runs\<close>

text \<open>
  An event is a new connection, a message of a connection, a socket that stops being
  open before its close event, the close event (the socket is \<open>CLOSED\<close> when the handler
  runs), or a pending timer coming due. Each event carries the time at which it is handled.
\<close>

datatype event =
    Connection nat
  | Message nat client_msg
  | Drop nat
  | Close nat
  | Timeout nat

definition set_ready :: "server \<Rightarrow> nat \<Rightarrow> readyState \<Rightarrow> server" where
  "set_ready s w st = s\<lparr> conns := (conns s)(w := (conns s w)\<lparr> readyState := st \<rparr>) \<rparr>"

definition step :: "server \<Rightarrow> int \<times> event \<Rightarrow> server \<times> delivery list" where
  "step s te =
     (case te of (now, e) \<Rightarrow>
        (case e of
           Connection w \<Rightarrow> (on_connection s w, [])
         | Message w msg \<Rightarrow> on_message s w msg now
         | Drop w \<Rightarrow> (set_ready s w CLOSING, [])
         | Close w \<Rightarrow> (on_close (set_ready s w CLOSED) w now, [])
         | Timeout h \<Rightarrow> on_timeout s h))"

fun run :: "server \<Rightarrow> (int \<times> event) list \<Rightarrow> server" where
  "run s [] = s"
| "run s (te # tes) = run (fst (step s te)) tes"

text \<open>
  What the transport guarantees of a run: a connection id is new when it connects, only
  a connected socket sends messages, drops or closes, it closes once, and only a pending
  timer comes due. \<open>single_join\<close> adds that a connection sends \<open>join\<close> only while it has
  joined no room.
\<close>

definition admissible :: "server \<Rightarrow> event \<Rightarrow> bool" where
  "admissible s e =
     (case e of
        Connection w \<Rightarrow> readyState (conns s w) = CONNECTING
      | Message w msg \<Rightarrow> readyState (conns s w) = OPEN \<or> readyState (conns s w) = CLOSING
      | Drop w \<Rightarrow> readyState (conns s w) = OPEN
      | Close w \<Rightarrow> readyState (conns s w) = OPEN \<or> readyState (conns s w) = CLOSING
      | Timeout h \<Rightarrow> timers s h \<noteq> None)"

definition single_join :: "server \<Rightarrow> event \<Rightarrow> bool" where
  "single_join s e =
     (case e of
        Message w (Join mroom mdev) \<Rightarrow> roomId (conns s w) = None
      | _ \<Rightarrow> True)"

fun valid_run :: "server \<Rightarrow> (int \<times> event) list \<Rightarrow> bool" where
  "valid_run s [] = True"
| "valid_run s (te # tes) = (admissible s (snd te) \<and> valid_run (fst (step s te)) tes)"

fun single_join_run :: "server \<Rightarrow> (int \<times> event) list \<Rightarrow> bool" where
  "single_join_run s [] = True"
| "single_join_run s (te # tes) = (single_join s (snd te) \<and> single_join_run (fst (step s te)) tes)"

section \<open>Properties: definitions\<close>

text \<open>
  The two-element arrays of a room keep their length; a room is consistent with the
  connection table when every occupant of a slot records this room and this slot, and every
  spectator records this room and no player slot.
\<close>

definition room_wf :: "room \<Rightarrow> bool" where
  "room_wf room \<longleftrightarrow>
     length (slots room) = 2 \<and> length (playerToken room) = 2 \<and>
     length (playerLeaseExpiry room) = 2 \<and> length (playerLeaseTimer room) = 2"

definition absent :: "nat \<Rightarrow> room \<Rightarrow> bool" where
  "absent w room \<longleftrightarrow> (\<forall>r<2. slots room ! r \<noteq> Some w) \<and> w \<notin> set (spectators room)"

definition room_ok :: "(nat \<Rightarrow> ws) \<Rightarrow> string \<Rightarrow> room \<Rightarrow> bool" where
  "room_ok cs k room \<longleftrightarrow>
     room_wf room \<and>
     (\<forall>r<2. \<forall>w. slots room ! r = Some w \<longrightarrow> roomId (cs w) = Some k \<and> roleIdx (cs w) = Some r) \<and>
     (\<forall>w\<in>set (spectators room). roomId (cs w) = Some k \<and> \<not> is_player (roleIdx (cs w)))"

definition timers_ok :: "(nat \<rightharpoonup> timer) \<Rightarrow> bool" where
  "timers_ok tm \<longleftrightarrow> (\<forall>h t k r. tm h = Some t \<and> callback t = LeaseExpire k r \<longrightarrow> r < 2)"

definition rooms_ok :: "server \<Rightarrow> bool" where
  "rooms_ok s \<longleftrightarrow> (\<forall>k room. rooms s k = Some room \<longrightarrow> room_ok (conns s) k room)"

definition server_inv :: "server \<Rightarrow> bool" where
  "server_inv s \<longleftrightarrow>
     rooms_ok s \<and> timers_ok (timers s) \<and>
     (\<forall>w. readyState (conns s w) = CONNECTING \<longrightarrow> roomId (conns s w) = None)"

datatype position = Player nat | Spectator

definition occupies :: "server \<Rightarrow> nat \<Rightarrow> string \<Rightarrow> position \<Rightarrow> bool" where
  "occupies s w k pos =
     (case rooms s k of
        None \<Rightarrow> False
      | Some room \<Rightarrow>
          (case pos of
             Player r \<Rightarrow> r < 2 \<and> slots room ! r = Some w
           | Spectator \<Rightarrow> w \<in> set (spectators room)))"

definition exclusive :: "server \<Rightarrow> bool" where
  "exclusive s \<longleftrightarrow>
     (\<forall>w k k' pos pos'. occupies s w k pos \<and> occupies s w k' pos' \<longrightarrow> k = k' \<and> pos = pos')"

text \<open>A queued device id has a live session when some open spectator of the room carries it.\<close>

definition has_live :: "(nat \<Rightarrow> ws) \<Rightarrow> room \<Rightarrow> string \<Rightarrow> bool" where
  "has_live cs room dev \<longleftrightarrow>
     (\<exists>p\<in>set (spectators room). readyState (cs p) = OPEN \<and> deviceId (cs p) = Some dev)"

text \<open>A payload of object shape: a JSON object or array (in JavaScript an array is an object,
  \<open>null\<close> is not accepted).\<close>

definition object_shape :: "json \<Rightarrow> bool" where
  "object_shape v = (case v of JObj _ \<Rightarrow> True | JArr _ \<Rightarrow> True | _ \<Rightarrow> False)"

text \<open>The members of a room: the occupants of slot 0 and slot 1, then the spectators.\<close>

definition members :: "room \<Rightarrow> nat list" where
  "members room =
     (case slots room ! 0 of None \<Rightarrow> [] | Some p \<Rightarrow> [p]) @
     (case slots room ! 1 of None \<Rightarrow> [] | Some p \<Rightarrow> [p]) @ spectators room"

subsection \<open>Concrete runs\<close>

text \<open>One connection sends \<open>join\<close> twice for the same room.\<close>

definition double_join :: "(int \<times> event) list" where
  "double_join =
     [(0, Connection 1),
      (1, Message 1 (Join (Some ''r'') (Some ''d''))),
      (2, Message 1 (Join (Some ''r'') (Some ''d'')))]"

text \<open>The scenario of the specification: three devices join, the first player leaves and
  its lease runs out, the spectator is promoted.\<close>

definition scenario :: "(int \<times> event) list" where
  "scenario =
     [(0, Connection 1), (1, Message 1 (Join (Some ''r1'') (Some ''d1''))),
      (2, Connection 2), (3, Message 2 (Join (Some ''r1'') (Some ''d2''))),
      (4, Connection 3), (5, Message 3 (Join (Some ''r1'') (Some ''d3''))),
      (1000, Close 1),
      (91000, Timeout 0)]"

text \<open>Two players and two spectators join; the first spectator and then the player of
  slot 0 disconnect, which leaves a stale id at the head of the queue.\<close>

definition queue_run :: "(int \<times> event) list" where
  "queue_run =
     [(0, Connection 1), (1, Message 1 (Join (Some ''r1'') (Some ''d1''))),
      (2, Connection 2), (3, Message 2 (Join (Some ''r1'') (Some ''d2''))),
      (4, Connection 3), (5, Message 3 (Join (Some ''r1'') (Some ''d3''))),
      (6, Connection 4), (7, Message 4 (Join (Some ''r1'') (Some ''d4''))),
      (500, Close 3),
      (1000, Close 1)]"

definition queue_room :: room where
  "queue_room =
     \<lparr> slots = [None, Some 2],
       spectators = [4],
       specQueue = [''d3'', ''d4''],
       playerToken = [Some ''d1'', Some ''d2''],
       playerLeaseExpiry = [91000, 0],
       playerLeaseTimer = [Some 0, None],
       state = None,
       lastUpdated = 1,
       cleanupTimer = None \<rparr>"


text \<open>Timer handles are fresh: every handle a room refers to and every pending timer is below
  the counter from which \<open>setTimeout\<close> takes the next handle.\<close>

definition room_handles :: "room \<Rightarrow> nat set" where
  "room_handles room = set_option (cleanupTimer room) \<union> (\<Union>h\<in>set (playerLeaseTimer room). set_option h)"

definition fresh_handles :: "server \<Rightarrow> bool" where
  "fresh_handles s \<longleftrightarrow>
     (\<forall>k room. rooms s k = Some room \<longrightarrow> (\<forall>h\<in>room_handles room. h < next_timer s)) \<and>
     (\<forall>h t. timers s h = Some t \<longrightarrow> h < next_timer s)"

text \<open>Two players and one spectator in room \<open>r1\<close>, and the same run before the third
  connection joins.\<close>

definition full_run :: "(int \<times> event) list" where
  "full_run =
     [(0, Connection 7), (1, Message 7 (Join (Some ''r1'') (Some ''d1''))),
      (2, Connection 8), (3, Message 8 (Join (Some ''r1'') (Some ''d2''))),
      (4, Connection 9), (5, Message 9 (Join (Some ''r1'') (Some ''d3'')))]"

definition full_room :: room where
  "full_room =
     \<lparr> slots = [Some 7, Some 8],
       spectators = [9],
       specQueue = [''d3''],
       playerToken = [Some ''d1'', Some ''d2''],
       playerLeaseExpiry = [0, 0],
       playerLeaseTimer = [None, None],
       state = None,
       lastUpdated = 1,
       cleanupTimer = None \<rparr>"

definition pair_run :: "(int \<times> event) list" where
  "pair_run =
     [(0, Connection 7), (1, Message 7 (Join (Some ''r1'') (Some ''d1''))),
      (2, Connection 8), (3, Message 8 (Join (Some ''r1'') (Some ''d2''))),
      (4, Connection 9)]"

definition pair_room :: room where
  "pair_room =
     \<lparr> slots = [Some 7, Some 8],
       spectators = [],
       specQueue = [],
       playerToken = [Some ''d1'', Some ''d2''],
       playerLeaseExpiry = [0, 0],
       playerLeaseTimer = [None, None],
       state = None,
       lastUpdated = 1,
       cleanupTimer = None \<rparr>"

text \<open>The two assignments \<open>ws.roomId = roomId; ws.deviceId = deviceId\<close> of the join handler,
  and the token \<open>ws.deviceId || null\<close> that \<open>assignRole\<close> records.\<close>

definition join_fields :: "server \<Rightarrow> nat \<Rightarrow> string \<Rightarrow> string \<Rightarrow> server" where
  "join_fields s w k dev =
     s\<lparr> conns := (conns s)(w := (conns s w)\<lparr> roomId := Some k, deviceId := Some dev \<rparr>) \<rparr>"

definition device_token :: "string \<Rightarrow> string option" where
  "device_token dev = (if dev = [] then None else Some dev)"

text \<open>Two connections of one device hold both slots; the player of slot 0 disconnects, then
  the player of slot 1, then the device joins again.\<close>

definition same_device_run :: "(int \<times> event) list" where
  "same_device_run =
     [(0, Connection 7), (1, Message 7 (Join (Some ''r'') (Some ''D''))),
      (2, Connection 8), (3, Message 8 (Join (Some ''r'') (Some ''D''))),
      (4, Connection 9),
      (1000, Close 7)]"

definition same_device_room :: room where
  "same_device_room =
     \<lparr> slots = [None, Some 8],
       spectators = [],
       specQueue = [],
       playerToken = [Some ''D'', Some ''D''],
       playerLeaseExpiry = [91000, 0],
       playerLeaseTimer = [Some 0, None],
       state = None,
       lastUpdated = 1,
       cleanupTimer = None \<rparr>"

definition same_device_rejoin :: "(int \<times> event) list" where
  "same_device_rejoin =
     same_device_run @ [(2000, Close 8), (3000, Message 9 (Join (Some ''r'') (Some ''D'')))]"

text \<open>Both players disconnect, 49 seconds apart; the lease of slot 0 runs out with no
  spectator, then the device of slot 1 joins again.\<close>

definition two_vacant_run :: "(int \<times> event) list" where
  "two_vacant_run =
     [(0, Connection 7), (1, Message 7 (Join (Some ''r'') (Some ''a''))),
      (2, Connection 8), (3, Message 8 (Join (Some ''r'') (Some ''b''))),
      (4, Connection 9),
      (1000, Close 7),
      (50000, Close 8)]"

definition two_vacant_room :: room where
  "two_vacant_room =
     \<lparr> slots = [None, None],
       spectators = [],
       specQueue = [],
       playerToken = [Some ''a'', Some ''b''],
       playerLeaseExpiry = [91000, 140000],
       playerLeaseTimer = [Some 0, Some 1],
       state = None,
       lastUpdated = 1,
       cleanupTimer = Some 2 \<rparr>"

definition two_vacant_rejoin :: "(int \<times> event) list" where
  "two_vacant_rejoin =
     two_vacant_run @ [(91000, Timeout 0), (100000, Message 9 (Join (Some ''r'') (Some ''b'')))]"

text \<open>Two connections that have not joined yet.\<close>

definition fresh_pair_run :: "(int \<times> event) list" where
  "fresh_pair_run = [(0, Connection 7), (0, Connection 8)]"

text \<open>The last occupant of a room leaves, which arms the cleanup timer; a minute later another
  device joins the room.\<close>

definition rejoin_run :: "(int \<times> event) list" where
  "rejoin_run =
     [(0, Connection 7), (1, Message 7 (Join (Some ''r'') (Some ''d1''))),
      (1000, Close 7),
      (2000, Connection 8), (60000, Message 8 (Join (Some ''r'') (Some ''d2'')))]"

text \<open>The room of \<open>pair_run\<close> after connection 8 has closed at time 2000, and the room of
  \<open>two_vacant_run\<close> after the lease of slot 0 has run out.\<close>

definition pair_closed_room :: room where
  "pair_closed_room =
     \<lparr> slots = [Some 7, None],
       spectators = [],
       specQueue = [],
       playerToken = [Some ''d1'', Some ''d2''],
       playerLeaseExpiry = [0, 92000],
       playerLeaseTimer = [None, Some 0],
       state = None,
       lastUpdated = 1,
       cleanupTimer = None \<rparr>"

definition two_vacant_expired_room :: room where
  "two_vacant_expired_room =
     \<lparr> slots = [None, None],
       spectators = [],
       specQueue = [],
       playerToken = [None, Some ''b''],
       playerLeaseExpiry = [0, 140000],
       playerLeaseTimer = [None, Some 1],
       state = None,
       lastUpdated = 1,
       cleanupTimer = Some 2 \<rparr>"


section \<open>Invariants of the handlers\<close>

lemma room_ok_absent: "room_ok cs k room \<Longrightarrow> roomId (cs w) \<noteq> Some k \<Longrightarrow> absent w room"
  by (auto simp: room_ok_def absent_def)

lemma room_ok_upd_absent: "room_ok cs k room \<Longrightarrow> absent w room \<Longrightarrow> room_ok (cs(w := c)) k room"
  by (auto simp: room_ok_def absent_def)

lemma room_ok_ready: "room_ok (cs(w := (cs w)\<lparr>readyState := st\<rparr>)) k room = room_ok cs k room"
  by (auto simp: room_ok_def)

lemma room_ok_new: "room_ok cs k (new_room now)"
  by (auto simp: room_ok_def room_wf_def new_room_def less_Suc_eq numeral_2_eq_2)

lemma clearTimeout_ok: "timers_ok tm \<Longrightarrow> timers_ok (clearTimeout h tm)"
  by (auto simp: timers_ok_def clearTimeout_def split: option.splits if_splits)

lemma assignRole_room_ok:
  assumes "room_ok (conns s) k room" "r < 2" "roomId (conns s w) = Some k"
    and "\<forall>r'<2. slots room ! r' \<noteq> Some w" "w \<notin> set (spectators room)"
  shows "room_ok (conns (snd (assignRole r w (room, s)))) k (fst (assignRole r w (room, s)))"
  using assms
  by (auto simp: assignRole_def room_ok_def room_wf_def nth_list_update)

lemma assignRole_frame:
  "rooms (snd (assignRole r w (room, s))) = rooms s"
  "conns (snd (assignRole r w (room, s))) = (conns s)(w := (conns s w)\<lparr>roleIdx := Some r\<rparr>)"
  "timers (snd (assignRole r w (room, s))) = clearTimeout (playerLeaseTimer room ! r) (timers s)"
  by (simp_all add: assignRole_def)

lemma assign_rooms_ok:
  assumes "rooms_ok s" "room_ok (conns s) k room" "absent w room" "r < 2"
    and "roomId (conns s w) = Some k"
  shows "rooms_ok (put_room (snd (assignRole r w (room, s))) k (fst (assignRole r w (room, s))))"
proof -
  let ?s1 = "snd (assignRole r w (room, s))" and ?room1 = "fst (assignRole r w (room, s))"
  have a: "room_ok (conns ?s1) k ?room1"
    using assms by (intro assignRole_room_ok) (auto simp: absent_def)
  have b: "room_ok (conns ?s1) k' room'" if "rooms s k' = Some room'" "k' \<noteq> k" for k' room'
  proof -
    from that assms(1) have "room_ok (conns s) k' room'" by (simp add: rooms_ok_def)
    moreover from this that assms(5) have "absent w room'" by (auto intro: room_ok_absent)
    ultimately show ?thesis by (simp add: assignRole_frame room_ok_upd_absent)
  qed
  show ?thesis
    unfolding rooms_ok_def
  proof (intro allI impI)
    fix k' room'
    assume "rooms (put_room ?s1 k ?room1) k' = Some room'"
    then have "(k' = k \<and> room' = ?room1) \<or> (k' \<noteq> k \<and> rooms s k' = Some room')"
      by (auto simp: put_room_def assignRole_frame split: if_splits)
    then show "room_ok (conns (put_room ?s1 k ?room1)) k' room'"
      using a b by (auto simp: put_room_def)
  qed
qed

lemma seat_eq:
  "fst (seat s k room r w) = put_room (snd (assignRole r w (room, s))) k (fst (assignRole r w (room, s)))"
  by (simp add: seat_def Let_def split: prod.splits)

lemma seat_frame:
  "timers (fst (seat s k room r w)) = clearTimeout (playerLeaseTimer room ! r) (timers s)"
  "conns (fst (seat s k room r w)) = (conns s)(w := (conns s w)\<lparr>roleIdx := Some r\<rparr>)"
  "next_timer (fst (seat s k room r w)) = next_timer s"
  "ROLE_LEASE_MS (fst (seat s k room r w)) = ROLE_LEASE_MS s"
  by (simp_all add: seat_eq put_room_def assignRole_def)

lemma find01:
  "List.find P [0, 1::nat] = Some r \<Longrightarrow> r < 2 \<and> P r"
  by (auto split: if_splits)

lemma getOrCreateRoom_ok:
  assumes "rooms_ok s" "getOrCreateRoom s k now = (s1, room)"
  shows "rooms_ok s1" "room_ok (conns s1) k room" "rooms s1 k = Some room" "conns s1 = conns s"
    "timers s1 = timers s"
  using assms
  by (auto simp: getOrCreateRoom_def rooms_ok_def put_room_def room_ok_new split: option.splits if_splits)

lemma rooms_ok_join_fields:
  assumes "rooms_ok s" "roomId (conns s w) = None"
  shows "rooms_ok (s\<lparr>conns := (conns s)(w := c)\<rparr>)"
  unfolding rooms_ok_def
proof (intro allI impI)
  fix k room assume "rooms (s\<lparr>conns := (conns s)(w := c)\<rparr>) k = Some room"
  then have r: "room_ok (conns s) k room" using assms(1) by (simp add: rooms_ok_def)
  then have "absent w room" using assms(2) by (auto intro: room_ok_absent)
  with r show "room_ok (conns (s\<lparr>conns := (conns s)(w := c)\<rparr>)) k room"
    by (simp add: room_ok_upd_absent)
qed

lemma spectate_rooms_ok:
  assumes "rooms_ok s" "room_ok (conns s) k room" "absent w room" "roomId (conns s w) = Some k"
    and "\<not> is_player (Some idx)"
  shows "rooms_ok (put_room (s\<lparr>conns := (conns s)(w := (conns s w)\<lparr>roleIdx := Some idx\<rparr>)\<rparr>) k
            (enqueueSpectator s w room))"
  unfolding rooms_ok_def
proof (intro allI impI)
  let ?cs = "(conns s)(w := (conns s w)\<lparr>roleIdx := Some idx\<rparr>)"
  fix k' room'
  assume "rooms (put_room (s\<lparr>conns := ?cs\<rparr>) k (enqueueSpectator s w room)) k' = Some room'"
  then consider "k' = k" "room' = enqueueSpectator s w room" | "k' \<noteq> k" "rooms s k' = Some room'"
    by (auto simp: put_room_def split: if_splits)
  then have "room_ok ?cs k' room'"
  proof cases
    case 1
    then show ?thesis using assms(2,3,4,5)
      by (auto simp: room_ok_def absent_def enqueueSpectator_def Set_add_def room_wf_def)
  next
    case 2
    with assms(1) have r: "room_ok (conns s) k' room'" by (simp add: rooms_ok_def)
    with 2 assms(4) have "absent w room'" by (auto intro: room_ok_absent)
    with r show ?thesis by (simp add: room_ok_upd_absent)
  qed
  then show "room_ok (conns (put_room (s\<lparr>conns := ?cs\<rparr>) k (enqueueSpectator s w room))) k' room'"
    by (simp add: put_room_def)
qed

lemma on_join_rooms_ok:
  assumes "rooms_ok s0" "roomId (conns s0 w) = None"
  shows "rooms_ok (fst (on_join s0 w mroom mdev now))"
proof -
  define k where "k = str_or mroom ''room1''"
  define dev where "dev = str_or mdev []"
  obtain s1 room where g: "getOrCreateRoom s0 k now = (s1, room)" by (cases "getOrCreateRoom s0 k now")
  define s where "s = s1\<lparr> conns := (conns s1)(w := (conns s1 w)\<lparr> roomId := Some k, deviceId := Some dev \<rparr>) \<rparr>"
  note G = getOrCreateRoom_ok [OF assms(1) g]
  have w0: "roomId (conns s1 w) = None" using assms(2) G(4) by simp
  have ok: "rooms_ok s" unfolding s_def using G(1) w0 by (rule rooms_ok_join_fields)
  have ab: "absent w room" using G(2) w0 by (auto intro: room_ok_absent)
  have rk: "room_ok (conns s) k room" unfolding s_def using G(2) ab by (simp add: room_ok_upd_absent)
  have rid: "roomId (conns s w) = Some k" by (simp add: s_def)
  have seat_ok: "rooms_ok (fst (seat s k room r w))" if "r < 2" for r
    unfolding seat_eq using ok rk ab that rid by (rule assign_rooms_ok)
  have spec_ok: "rooms_ok (put_room (s\<lparr>conns := (conns s)(w := (conns s w)\<lparr>roleIdx := Some idx\<rparr>)\<rparr>) k
            (enqueueSpectator s w room))" if "\<not> is_player (Some idx)" for idx
    using ok rk ab rid that by (rule spectate_rooms_ok)
  have idx: "\<not> is_player (Some (2 + length (spectators (enqueueSpectator s w room)) - 1))"
    by (auto simp: is_player_def enqueueSpectator_def Set_add_def)
  show ?thesis
    unfolding on_join_def k_def [symmetric] dev_def [symmetric]
    using seat_ok spec_ok [OF idx]
    by (auto simp: Let_def g s_def [symmetric] split: option.splits dest!: find01)
qed

lemma on_join_frame:
  "timers_ok (timers s0) \<Longrightarrow> timers_ok (timers (fst (on_join s0 w mroom mdev now)))"
  "readyState (conns (fst (on_join s0 w mroom mdev now)) w') = readyState (conns s0 w')"
  "w' \<noteq> w \<Longrightarrow> conns (fst (on_join s0 w mroom mdev now)) w' = conns s0 w'"
  by (auto simp: on_join_def Let_def getOrCreateRoom_def put_room_def seat_frame clearTimeout_ok
      split: option.splits prod.splits)

lemma rooms_ok_put:
  assumes "rooms_ok s" "room_ok (conns s) k room"
  shows "rooms_ok (put_room s k room)"
  using assms by (auto simp: rooms_ok_def put_room_def)

lemma rooms_ok_more:
  "rooms s' = rooms s \<Longrightarrow> conns s' = conns s \<Longrightarrow> rooms_ok s' = rooms_ok s"
  by (simp add: rooms_ok_def)

lemma startLeaseTimer_ok:
  assumes "rooms_ok s" "r < 2"
  shows "rooms_ok (startLeaseTimer s k r now)"
proof (cases "rooms s k")
  case None
  then show ?thesis using assms by (simp add: startLeaseTimer_def)
next
  case (Some room)
  with assms(1) have "room_ok (conns s) k room" by (simp add: rooms_ok_def)
  then have "room_ok (conns s) k
     (room\<lparr> playerLeaseExpiry := (playerLeaseExpiry room)[r := now + ROLE_LEASE_MS s],
            playerLeaseTimer := (playerLeaseTimer room)[r := Some (next_timer s)] \<rparr>)"
    by (simp add: room_ok_def room_wf_def)
  with assms(1) Some show ?thesis
    by (auto simp: startLeaseTimer_def Let_def rooms_ok_def)
qed

lemma startLeaseTimer_frame:
  "conns (startLeaseTimer s k r now) = conns s"
  "timers_ok (timers s) \<Longrightarrow> r < 2 \<Longrightarrow> timers_ok (timers (startLeaseTimer s k r now))"
  by (auto simp: startLeaseTimer_def Let_def timers_ok_def clearTimeout_def split: option.splits if_splits)

lemma close_leave_ok:
  assumes "rooms_ok s" "rooms s k = Some room"
  shows "rooms_ok (close_leave s w k room now)"
proof -
  from assms have r: "room_ok (conns s) k room" by (simp add: rooms_ok_def)
  have a: "rooms_ok (put_room s k (room\<lparr> spectators := Set_delete w (spectators room) \<rparr>))"
    using assms(1) r by (intro rooms_ok_put) (auto simp: room_ok_def room_wf_def Set_delete_def)
  have b: "rooms_ok (startLeaseTimer (put_room s k (room\<lparr> slots := (slots room)[i := None] \<rparr>)) k i now)"
    if "i < 2" for i
  proof -
    have "room_ok (conns s) k (room\<lparr> slots := (slots room)[i := None] \<rparr>)"
      using r that by (auto simp: room_ok_def room_wf_def nth_list_update split: if_splits)
    with assms(1) have "rooms_ok (put_room s k (room\<lparr> slots := (slots room)[i := None] \<rparr>))"
      by (rule rooms_ok_put)
    then show ?thesis using that by (rule startLeaseTimer_ok)
  qed
  show ?thesis
    using a b [of 0] b [of 1] assms(1)
    by (auto simp: close_leave_def split: option.splits)
qed

lemma close_leave_frame:
  "conns (close_leave s w k room now) = conns s"
  "timers_ok (timers s) \<Longrightarrow> timers_ok (timers (close_leave s w k room now))"
  by (auto simp: close_leave_def startLeaseTimer_frame put_room_def split: option.splits)

lemma close_cleanup_ok:
  assumes "rooms_ok s"
  shows "rooms_ok (close_cleanup s w k now)"
proof (cases "rooms s k")
  case None
  then show ?thesis using assms by (simp add: close_cleanup_def)
next
  case (Some room)
  with assms have "room_ok (conns s) k room" by (simp add: rooms_ok_def)
  then have "room_ok (conns s) k (room\<lparr> cleanupTimer := Some (next_timer s) \<rparr>)"
    by (simp add: room_ok_def room_wf_def)
  with assms Some show ?thesis
    by (auto simp: close_cleanup_def Let_def rooms_ok_def)
qed

lemma close_cleanup_frame:
  "conns (close_cleanup s w k now) = conns s"
  "timers_ok (timers s) \<Longrightarrow> timers_ok (timers (close_cleanup s w k now))"
  by (auto simp: close_cleanup_def Let_def timers_ok_def clearTimeout_def split: option.splits if_splits)

lemma on_close_ok: "rooms_ok s \<Longrightarrow> rooms_ok (on_close s w now)"
  by (auto simp: on_close_def Let_def close_cleanup_ok close_leave_ok split: option.splits)

lemma on_close_frame:
  "conns (on_close s w now) = conns s"
  "timers_ok (timers s) \<Longrightarrow> timers_ok (timers (on_close s w now))"
  by (auto simp: on_close_def Let_def close_cleanup_frame close_leave_frame split: option.splits)

lemma dequeue_spec:
  "dequeueNextLiveSpectator cs room =
     (case dropWhile (\<lambda>d. live_spectator cs room d = None) (specQueue room) of
        [] \<Rightarrow> (None, room\<lparr> specQueue := [] \<rparr>)
      | dev # rest \<Rightarrow> (live_spectator cs room dev,
           room\<lparr> specQueue := rest, spectators := Set_delete (the (live_spectator cs room dev)) (spectators room) \<rparr>))"
proof (induction cs room rule: dequeueNextLiveSpectator.induct)
  case (1 cs room)
  show ?case
  proof (cases "specQueue room")
    case Nil
    then show ?thesis by (simp add: dequeueNextLiveSpectator.simps [of cs room])
  next
    case (Cons dev rest)
    show ?thesis
    proof (cases "live_spectator cs room dev")
      case None
      have eq: "live_spectator cs (room\<lparr>specQueue := rest\<rparr>) = live_spectator cs room"
        by (simp add: live_spectator_def fun_eq_iff)
      from 1 [OF Cons None] Cons None show ?thesis
        by (simp add: dequeueNextLiveSpectator.simps [of cs room] eq cong: list.case_cong)
    next
      case (Some p)
      with Cons show ?thesis by (simp add: dequeueNextLiveSpectator.simps [of cs room])
    qed
  qed
qed

lemma live_spectator_Some:
  "live_spectator cs room dev = Some p \<Longrightarrow>
     p \<in> set (spectators room) \<and> readyState (cs p) = OPEN \<and> deviceId (cs p) = Some dev"
  by (auto simp: live_spectator_def find_Some_iff)

lemma live_spectator_None:
  "live_spectator cs room dev = None \<longleftrightarrow>
     (\<forall>p\<in>set (spectators room). \<not> (readyState (cs p) = OPEN \<and> deviceId (cs p) = Some dev))"
  by (auto simp: live_spectator_def find_None_iff)

lemma dequeue_Some:
  assumes "dequeueNextLiveSpectator cs room = (Some p, room1)"
  shows "\<exists>stale dev rest. specQueue room = stale @ dev # rest \<and>
           (\<forall>d\<in>set stale. live_spectator cs room d = None) \<and>
           live_spectator cs room dev = Some p \<and>
           room1 = room\<lparr> specQueue := rest, spectators := Set_delete p (spectators room) \<rparr>"
proof (cases "dropWhile (\<lambda>d. live_spectator cs room d = None) (specQueue room)")
  case Nil
  with assms show ?thesis by (simp add: dequeue_spec)
next
  case (Cons dev rest)
  with assms have l: "live_spectator cs room dev = Some p"
    and r: "room1 = room\<lparr> specQueue := rest, spectators := Set_delete p (spectators room) \<rparr>"
    by (auto simp: dequeue_spec)
  from Cons have "specQueue room = takeWhile (\<lambda>d. live_spectator cs room d = None) (specQueue room) @ dev # rest"
    by (simp add: dropWhile_eq_Cons_conv)
  moreover have "\<forall>d\<in>set (takeWhile (\<lambda>d. live_spectator cs room d = None) (specQueue room)).
      live_spectator cs room d = None"
    by (auto dest: set_takeWhileD)
  ultimately show ?thesis using l r by blast
qed

lemma dequeue_None:
  assumes "dequeueNextLiveSpectator cs room = (None, room1)"
  shows "(\<forall>d\<in>set (specQueue room). live_spectator cs room d = None) \<and> room1 = room\<lparr> specQueue := [] \<rparr>"
proof (cases "dropWhile (\<lambda>d. live_spectator cs room d = None) (specQueue room)")
  case Nil
  with assms show ?thesis by (simp add: dequeue_spec)
next
  case (Cons dev rest)
  then have "live_spectator cs room dev \<noteq> None" by (simp add: dropWhile_eq_Cons_conv)
  with assms Cons show ?thesis by (simp add: dequeue_spec)
qed

lemma dequeue_decomp:
  assumes "specQueue room = stale @ dev # rest" "\<forall>d\<in>set stale. live_spectator cs room d = None"
    and "live_spectator cs room dev = Some p"
  shows "dequeueNextLiveSpectator cs room =
           (Some p, room\<lparr> specQueue := rest, spectators := Set_delete p (spectators room) \<rparr>)"
proof -
  have "dropWhile (\<lambda>d. live_spectator cs room d = None) (specQueue room) = dev # rest"
    using assms by (simp add: dropWhile_append3)
  then show ?thesis using assms(3) by (simp add: dequeue_spec)
qed

lemma dequeue_all_stale:
  assumes "\<forall>d\<in>set (specQueue room). live_spectator cs room d = None"
  shows "dequeueNextLiveSpectator cs room = (None, room\<lparr> specQueue := [] \<rparr>)"
proof -
  have h: "dropWhile (\<lambda>d. live_spectator cs room d = None) (specQueue room) = []"
    using assms by simp
  show ?thesis unfolding dequeue_spec h by simp
qed

lemma onLeaseExpire_ok:
  assumes "rooms_ok s" "r < 2"
  shows "rooms_ok (fst (onLeaseExpire s k r))"
proof (cases "rooms s k")
  case None
  then show ?thesis using assms by (simp add: onLeaseExpire_def)
next
  case (Some room)
  with assms(1) have rk: "room_ok (conns s) k room" by (simp add: rooms_ok_def)
  show ?thesis
  proof (cases "dequeueNextLiveSpectator (conns s) room")
    case (Pair res room1)
    show ?thesis
    proof (cases res)
      case None
      with Pair have r1: "room1 = room\<lparr> specQueue := [] \<rparr>" by (simp add: dequeue_None)
      have "room_ok (conns s) k
          (room1\<lparr> playerToken := (playerToken room1)[r := None],
                  playerLeaseExpiry := (playerLeaseExpiry room1)[r := 0],
                  playerLeaseTimer := (playerLeaseTimer room1)[r := None] \<rparr>)"
        using rk by (simp add: r1 room_ok_def room_wf_def)
      with assms(1) have "rooms_ok (put_room s k
          (room1\<lparr> playerToken := (playerToken room1)[r := None],
                  playerLeaseExpiry := (playerLeaseExpiry room1)[r := 0],
                  playerLeaseTimer := (playerLeaseTimer room1)[r := None] \<rparr>))"
        by (rule rooms_ok_put)
      then show ?thesis using Some Pair None assms(1) by (simp add: onLeaseExpire_def)
    next
      case Some2: (Some p)
      with Pair obtain rest dev where l: "live_spectator (conns s) room dev = Some p"
        and r1: "room1 = room\<lparr> specQueue := rest, spectators := Set_delete p (spectators room) \<rparr>"
        by (auto dest: dequeue_Some)
      from l have pin: "p \<in> set (spectators room)" by (simp add: live_spectator_Some)
      with rk have pk: "roomId (conns s p) = Some k" and np: "\<not> is_player (roleIdx (conns s p))"
        by (auto simp: room_ok_def)
      have ab: "absent p room1"
        using rk np by (auto simp: r1 absent_def room_ok_def Set_delete_def is_player_def less_Suc_eq numeral_2_eq_2)
      have rk1: "room_ok (conns s) k room1"
        using rk by (auto simp: r1 room_ok_def room_wf_def Set_delete_def)
      have "rooms_ok (put_room (snd (assignRole r p (room1, s))) k (fst (assignRole r p (room1, s))))"
        using assms(1) rk1 ab assms(2) pk by (rule assign_rooms_ok)
      then show ?thesis using Some Pair Some2 assms(1)
        by (auto simp: onLeaseExpire_def Let_def split: prod.splits)
    qed
  qed
qed

lemma onLeaseExpire_frame:
  "timers_ok (timers s) \<Longrightarrow> timers_ok (timers (fst (onLeaseExpire s k r)))"
  "readyState (conns (fst (onLeaseExpire s k r)) w) = readyState (conns s w)"
  "roomId (conns (fst (onLeaseExpire s k r)) w) = roomId (conns s w)"
  by (auto simp: onLeaseExpire_def Let_def put_room_def assignRole_def clearTimeout_ok
      split: option.splits prod.splits)

lemma on_timeout_ok:
  assumes "rooms_ok s" "timers_ok (timers s)"
  shows "rooms_ok (fst (on_timeout s h))"
proof (cases "timers s h")
  case None
  then show ?thesis using assms by (simp add: on_timeout_def)
next
  case (Some t)
  let ?s1 = "s\<lparr> timers := (timers s)(h := None) \<rparr>"
  have s1: "rooms_ok ?s1" using assms(1) by (simp add: rooms_ok_def)
  show ?thesis
  proof (cases "callback t")
    case (LeaseExpire k r)
    with Some assms(2) have "r < 2" by (auto simp: timers_ok_def)
    with s1 have "rooms_ok (fst (onLeaseExpire ?s1 k r))" by (rule onLeaseExpire_ok)
    with Some LeaseExpire show ?thesis by (simp add: on_timeout_def Let_def)
  next
    case (RoomCleanup w)
    with Some s1 show ?thesis by (auto simp: on_timeout_def Let_def rooms_ok_def)
  qed
qed

lemma on_timeout_frame:
  "timers_ok (timers s) \<Longrightarrow> timers_ok (timers (fst (on_timeout s h)))"
  "readyState (conns (fst (on_timeout s h)) w) = readyState (conns s w)"
  "roomId (conns (fst (on_timeout s h)) w) = roomId (conns s w)"
proof -
  have t: "timers_ok tm \<Longrightarrow> timers_ok (tm(h := None))" for tm
    by (auto simp: timers_ok_def split: if_splits)
  show "timers_ok (timers s) \<Longrightarrow> timers_ok (timers (fst (on_timeout s h)))"
    by (auto simp: on_timeout_def Let_def t onLeaseExpire_frame split: option.splits timer_callback.splits)
  show "readyState (conns (fst (on_timeout s h)) w) = readyState (conns s w)"
    by (auto simp: on_timeout_def Let_def onLeaseExpire_frame split: option.splits timer_callback.splits)
  show "roomId (conns (fst (on_timeout s h)) w) = roomId (conns s w)"
    by (auto simp: on_timeout_def Let_def onLeaseExpire_frame split: option.splits timer_callback.splits)
qed

lemma inv_init: "server_inv (init_server env)"
  by (simp add: server_inv_def rooms_ok_def timers_ok_def init_server_def)

lemma rooms_ok_set_ready: "rooms_ok (set_ready s w st) = rooms_ok s"
  by (simp add: rooms_ok_def set_ready_def room_ok_ready)

lemma on_syncState_ok: "rooms_ok s \<Longrightarrow> rooms_ok (fst (on_syncState s w mstate now))"
proof -
  have "room_ok cs k room \<Longrightarrow> room_ok cs k (room\<lparr> state := Some st, lastUpdated := now \<rparr>)" for cs k room st
    by (simp add: room_ok_def room_wf_def)
  then show "rooms_ok s \<Longrightarrow> rooms_ok (fst (on_syncState s w mstate now))"
    by (auto simp: on_syncState_def Let_def rooms_ok_def put_room_def split: option.splits)
qed

lemma on_syncState_frame:
  "conns (fst (on_syncState s w mstate now)) = conns s"
  "timers (fst (on_syncState s w mstate now)) = timers s"
  by (auto simp: on_syncState_def Let_def put_room_def split: option.splits)

lemma inv_step:
  assumes "server_inv s" "admissible s e" "single_join s e"
  shows "server_inv (fst (step s (now, e)))"
proof (cases e)
  case (Connection w)
  with assms(2) have "readyState (conns s w) = CONNECTING" by (simp add: admissible_def)
  with assms(1) have "roomId (conns s w) = None" by (simp add: server_inv_def)
  with assms(1) have "rooms_ok (on_connection s w)"
    unfolding on_connection_def server_inv_def by (intro rooms_ok_join_fields) auto
  with assms(1) Connection show ?thesis
    by (auto simp: server_inv_def step_def on_connection_def)
next
  case (Message w msg)
  show ?thesis
  proof (cases msg)
    case (Join mroom mdev)
    with Message assms(3) have n: "roomId (conns s w) = None" by (simp add: single_join_def)
    from Message assms(2) have o: "readyState (conns s w) \<noteq> CONNECTING"
      by (auto simp: admissible_def)
    have "rooms_ok (fst (on_join s w mroom mdev now))"
      using assms(1) n by (intro on_join_rooms_ok) (auto simp: server_inv_def)
    moreover have "timers_ok (timers (fst (on_join s w mroom mdev now)))"
      using assms(1) by (intro on_join_frame) (auto simp: server_inv_def)
    moreover have "roomId (conns (fst (on_join s w mroom mdev now)) w') = None"
      if "readyState (conns (fst (on_join s w mroom mdev now)) w') = CONNECTING" for w'
    proof -
      from that have c: "readyState (conns s w') = CONNECTING" by (simp add: on_join_frame)
      with o have "w' \<noteq> w" by auto
      then have "conns (fst (on_join s w mroom mdev now)) w' = conns s w'" by (rule on_join_frame)
      with c assms(1) show ?thesis by (simp add: server_inv_def)
    qed
    ultimately show ?thesis using Message Join
      by (simp add: server_inv_def step_def on_message_def)
  next
    case RequestState
    with Message assms(1) show ?thesis
      by (auto simp: step_def on_message_def on_request_state_def split: option.splits)
  next
    case (SyncState mstate)
    with Message assms(1) show ?thesis
      by (simp add: step_def on_message_def server_inv_def on_syncState_ok on_syncState_frame)
  next
    case (Chat mtext mtime)
    with Message assms(1) show ?thesis
      by (auto simp: step_def on_message_def on_chat_def Let_def split: option.splits)
  next
    case Other
    with Message assms(1) show ?thesis
      by (simp add: step_def on_message_def)
  qed
next
  case (Drop w)
  with assms(1) show ?thesis
    by (auto simp: step_def server_inv_def rooms_ok_set_ready) (auto simp: set_ready_def split: if_splits)
next
  case (Close w)
  from assms(1) have "rooms_ok (on_close (set_ready s w CLOSED) w now)"
    by (intro on_close_ok) (simp add: rooms_ok_set_ready server_inv_def)
  moreover have "timers_ok (timers (on_close (set_ready s w CLOSED) w now))"
    using assms(1) by (intro on_close_frame) (simp add: set_ready_def server_inv_def)
  moreover have "\<forall>w'. readyState (conns (set_ready s w CLOSED) w') = CONNECTING \<longrightarrow>
      roomId (conns (set_ready s w CLOSED) w') = None"
    using assms(1) by (auto simp: server_inv_def set_ready_def)
  ultimately show ?thesis using Close
    by (simp add: step_def server_inv_def on_close_frame)
next
  case (Timeout h)
  with assms(1) show ?thesis
    by (simp add: step_def server_inv_def on_timeout_ok on_timeout_frame)
qed

lemma inv_run:
  "server_inv s \<Longrightarrow> valid_run s tes \<Longrightarrow> single_join_run s tes \<Longrightarrow> server_inv (run s tes)"
proof (induction tes arbitrary: s)
  case Nil
  then show ?case by simp
next
  case (Cons te tes)
  obtain now e where te: "te = (now, e)" by (cases te)
  from Cons.prems have "server_inv (fst (step s (now, e)))"
    by (intro inv_step) (simp_all add: te)
  with Cons.prems show ?case
    by (simp add: te Cons.IH)
qed

lemma occupies_fields:
  assumes "rooms_ok s" "occupies s w k pos"
  shows "roomId (conns s w) = Some k"
    and "case pos of Player r \<Rightarrow> roleIdx (conns s w) = Some r \<and> r < 2
                   | Spectator \<Rightarrow> \<not> is_player (roleIdx (conns s w))"
  using assms
  by (auto simp: rooms_ok_def occupies_def room_ok_def split: option.splits position.splits)

lemma inv_exclusive: 
  assumes "server_inv s" shows "exclusive s"
  unfolding exclusive_def
proof (intro allI impI, elim conjE)
  fix w k k' pos pos'
  assume a: "occupies s w k pos" and b: "occupies s w k' pos'"
  from assms have r: "rooms_ok s" by (simp add: server_inv_def)
  note A = occupies_fields [OF r a] and B = occupies_fields [OF r b]
  from A(1) B(1) have "k = k'" by simp
  moreover from A(2) B(2) have "pos = pos'"
    by (cases pos; cases pos') (auto simp: is_player_def less_Suc_eq numeral_2_eq_2)
  ultimately show "k = k' \<and> pos = pos'" by simp
qed

subsection \<open>Evaluating concrete runs\<close>

lemmas handler_defs =
  init_server_def step_def on_message_def on_join_def on_connection_def on_close_def on_timeout_def
  on_request_state_def on_syncState_def on_chat_def
  getOrCreateRoom_def put_room_def new_room_def str_or_def reclaim_ok_def fresh_ok_def seat_def
  assignRole_def enqueueSpectator_def onLeaseExpire_def startLeaseTimer_def close_leave_def
  close_cleanup_def peers_def TTL_def room_key_def set_ready_def
  clearTimeout_def Let_def send_def send_snapshot_def broadcast_def Set_add_def Set_delete_def
  admissible_def single_join_def js_truthy_def js_typeof_def List.map_filter_def

lemma queue_run_room: "rooms (run (init_server None) queue_run) ''r1'' = Some queue_room"
  by (simp add: queue_run_def queue_room_def handler_defs)

lemma queue_run_conns:
  "conns (run (init_server None) queue_run) 4 =
     \<lparr> readyState = OPEN, roomId = Some ''r1'', roleIdx = Some 3, deviceId = Some ''d4'' \<rparr>"
  by (simp add: queue_run_def handler_defs)

subsection \<open>Single handlers\<close>

lemma has_live_conv: "has_live cs room dev \<longleftrightarrow> live_spectator cs room dev \<noteq> None"
  by (auto simp: has_live_def live_spectator_None)

lemma object_shape_conv: "object_shape st \<longleftrightarrow> js_truthy st \<and> js_typeof st = T_object"
  by (cases st) (simp_all add: object_shape_def js_truthy_def js_typeof_def)

lemma broadcast_members:
  "rooms s k = Some room \<Longrightarrow>
     broadcast s k obj = map (\<lambda>p. (p, obj)) (filter (\<lambda>p. readyState (conns s p) = OPEN) (members room))"
  by (cases "slots room ! 0"; cases "slots room ! 1")
     (simp_all add: broadcast_def members_def List.map_filter_def Let_def comp_def)

lemma onLeaseExpire_promote:
  assumes "rooms s k = Some room" "r < length (slots room)" "slots room ! r = None"
    and "dequeueNextLiveSpectator (conns s) room =
           (Some p, room\<lparr> specQueue := rest, spectators := Set_delete p (spectators room) \<rparr>)"
  shows "\<exists>room'. rooms (fst (onLeaseExpire s k r)) k = Some room' \<and> slots room' ! r = Some p \<and>
            specQueue room' = rest \<and> spectators room' = Set_delete p (spectators room)"
  using assms by (simp add: onLeaseExpire_def assignRole_def put_room_def Let_def)

lemma onLeaseExpire_discard:
  assumes "rooms s k = Some room" "r < length (slots room)" "slots room ! r = None"
    and "dequeueNextLiveSpectator (conns s) room = (None, room\<lparr> specQueue := [] \<rparr>)"
  shows "fst (onLeaseExpire s k r) =
           put_room s k (room\<lparr> specQueue := [],
                               playerToken := (playerToken room)[r := None],
                               playerLeaseExpiry := (playerLeaseExpiry room)[r := 0],
                               playerLeaseTimer := (playerLeaseTimer room)[r := None] \<rparr>)"
  using assms by (simp add: onLeaseExpire_def)

lemma members_upd [simp]:
  "members (room\<lparr> state := a, lastUpdated := b \<rparr>) = members room"
  by (simp add: members_def)

lemma full_run_room: "rooms (run (init_server None) full_run) ''r1'' = Some full_room"
  by (simp add: full_run_def full_room_def handler_defs)

lemma full_run_conns:
  "conns (run (init_server None) full_run) 7 =
     \<lparr> readyState = OPEN, roomId = Some ''r1'', roleIdx = Some 0, deviceId = Some ''d1'' \<rparr>"
  "conns (run (init_server None) full_run) 8 =
     \<lparr> readyState = OPEN, roomId = Some ''r1'', roleIdx = Some 1, deviceId = Some ''d2'' \<rparr>"
  "conns (run (init_server None) full_run) 9 =
     \<lparr> readyState = OPEN, roomId = Some ''r1'', roleIdx = Some 2, deviceId = Some ''d3'' \<rparr>"
  by (simp_all add: full_run_def handler_defs)

lemma full_run_misc:
  "next_timer (run (init_server None) full_run) = 0"
  "ROLE_LEASE_MS (run (init_server None) full_run) = 90000"
  by (simp_all add: full_run_def handler_defs)

lemma pair_run_room: "rooms (run (init_server None) pair_run) ''r1'' = Some pair_room"
  by (simp add: pair_run_def pair_room_def handler_defs)

lemma pair_run_conns:
  "conns (run (init_server None) pair_run) 9 =
     \<lparr> readyState = OPEN, roomId = None, roleIdx = None, deviceId = None \<rparr>"
  by (simp add: pair_run_def handler_defs)

subsection \<open>Closing a player connection\<close>

lemma close_cleanup_room:
  "rooms s k = Some room1 \<Longrightarrow>
     \<exists>c. rooms (close_cleanup s w k now) k = Some (room1\<lparr> cleanupTimer := c \<rparr>)"
proof (cases "peers room1 = 0")
  case True
  assume "rooms s k = Some room1"
  with True show ?thesis by (auto simp: close_cleanup_def Let_def)
next
  case False
  assume "rooms s k = Some room1"
  with False have "rooms (close_cleanup s w k now) k = Some (room1\<lparr> cleanupTimer := cleanupTimer room1 \<rparr>)"
    by (simp add: close_cleanup_def)
  then show ?thesis by blast
qed

lemma close_cleanup_timers:
  assumes "rooms s k = Some room1" "h \<noteq> next_timer s" "cleanupTimer room1 \<noteq> Some h"
  shows "timers (close_cleanup s w k now) h = timers s h"
  using assms by (auto simp: close_cleanup_def Let_def clearTimeout_def split: option.splits)

lemma close_cleanup_lease: "ROLE_LEASE_MS (close_cleanup s w k now) = ROLE_LEASE_MS s"
  by (auto simp: close_cleanup_def Let_def split: option.splits)

lemma on_close_player:
  assumes "rooms s k = Some room" "roomId (conns s w) = Some k" "roleIdx (conns s w) = Some r"
    and "r < 2" "slots room ! r = Some w"
  shows "on_close s w now =
           close_cleanup (startLeaseTimer (put_room s k (room\<lparr> slots := (slots room)[r := None] \<rparr>)) k r now) w k now"
  using assms by (auto simp: on_close_def Let_def room_key_def close_leave_def)

lemma startLeaseTimer_room:
  assumes "rooms s k = Some room0"
  shows "rooms (startLeaseTimer s k r now) k =
           Some (room0\<lparr> playerLeaseExpiry := (playerLeaseExpiry room0)[r := now + ROLE_LEASE_MS s],
                        playerLeaseTimer := (playerLeaseTimer room0)[r := Some (next_timer s)] \<rparr>)"
    and "timers (startLeaseTimer s k r now) =
           (clearTimeout (playerLeaseTimer room0 ! r) (timers s))
             (next_timer s \<mapsto> \<lparr> due = now + ROLE_LEASE_MS s, callback = LeaseExpire k r \<rparr>)"
    and "next_timer (startLeaseTimer s k r now) = Suc (next_timer s)"
  using assms by (simp_all add: startLeaseTimer_def Let_def)

subsection \<open>Timer handles stay fresh\<close>

lemma handles_upd:
  assumes "h \<in> room_handles (room\<lparr> playerLeaseTimer := (playerLeaseTimer room)[r := v] \<rparr>)"
  shows "h \<in> room_handles room \<or> v = Some h"
  using assms set_update_subset_insert [of "playerLeaseTimer room" r v]
  by (auto simp: room_handles_def)

lemma handles_new: "room_handles (new_room now) = {}"
  by (simp add: room_handles_def new_room_def)

lemma fresh_put:
  assumes "fresh_handles s" "\<forall>h\<in>room_handles room. h < next_timer s"
  shows "fresh_handles (put_room s k room)"
  using assms by (auto simp: fresh_handles_def put_room_def)

lemma fresh_conns: "fresh_handles (s\<lparr> conns := c \<rparr>) = fresh_handles s"
  by (simp add: fresh_handles_def)

lemma fresh_room: "fresh_handles s \<Longrightarrow> rooms s k = Some room \<Longrightarrow> h \<in> room_handles room \<Longrightarrow> h < next_timer s"
  by (auto simp: fresh_handles_def)

lemma seat_fresh:
  assumes "fresh_handles s" "\<forall>h\<in>room_handles room. h < next_timer s"
  shows "fresh_handles (fst (seat s k room r w))"
proof -
  have a: "h < next_timer s" if "h \<in> room_handles (fst (assignRole r w (room, s)))" for h
  proof -
    from that have "h \<in> room_handles (room\<lparr> playerLeaseTimer := (playerLeaseTimer room)[r := None] \<rparr>)"
      by (simp add: assignRole_def room_handles_def)
    with assms(2) show ?thesis by (auto dest: handles_upd)
  qed
  have b: "fresh_handles (snd (assignRole r w (room, s)))"
    using assms(1) by (auto simp: fresh_handles_def assignRole_def clearTimeout_def split: option.splits if_splits)
  have n: "next_timer (snd (assignRole r w (room, s))) = next_timer s" by (simp add: assignRole_def)
  show ?thesis unfolding seat_eq using b a by (intro fresh_put) (auto simp: n)
qed

lemma on_join_fresh:
  assumes "fresh_handles s0"
  shows "fresh_handles (fst (on_join s0 w mroom mdev now))"
proof -
  define k where "k = str_or mroom ''room1''"
  define dev where "dev = str_or mdev []"
  obtain s1 room where g: "getOrCreateRoom s0 k now = (s1, room)" by (cases "getOrCreateRoom s0 k now")
  define s where "s = s1\<lparr> conns := (conns s1)(w := (conns s1 w)\<lparr> roomId := Some k, deviceId := Some dev \<rparr>) \<rparr>"
  have f1: "fresh_handles s1" and h1: "\<forall>h\<in>room_handles room. h < next_timer s1"
    using assms g
    by (auto simp: getOrCreateRoom_def handles_new fresh_put split: option.splits dest: fresh_room)
  have f: "fresh_handles s" and h: "\<forall>h\<in>room_handles room. h < next_timer s"
    using f1 h1 by (simp_all add: s_def fresh_conns)
  have e: "room_handles (enqueueSpectator s w room) = room_handles room"
    by (simp add: enqueueSpectator_def room_handles_def)
  have sp: "fresh_handles (put_room (s\<lparr>conns := c\<rparr>) k (enqueueSpectator s w room))" for c
    using f h by (intro fresh_put) (simp_all add: fresh_conns e)
  show ?thesis
    unfolding on_join_def k_def [symmetric] dev_def [symmetric]
    using seat_fresh [OF f h] sp
    by (auto simp: Let_def g s_def [symmetric] split: option.splits)
qed

lemma startLeaseTimer_fresh:
  assumes "fresh_handles s"
  shows "fresh_handles (startLeaseTimer s k r now)"
proof (cases "rooms s k")
  case None
  then show ?thesis using assms by (simp add: startLeaseTimer_def)
next
  case (Some room)
  have "h < Suc (next_timer s)"
    if "h \<in> room_handles (room\<lparr> playerLeaseExpiry := e,
          playerLeaseTimer := (playerLeaseTimer room)[r := Some (next_timer s)] \<rparr>)" for h e
  proof -
    from that have "h \<in> room_handles (room\<lparr> playerLeaseTimer := (playerLeaseTimer room)[r := Some (next_timer s)] \<rparr>)"
      by (simp add: room_handles_def)
    then have "h \<in> room_handles room \<or> h = next_timer s" by (auto dest: handles_upd)
    with assms Some show ?thesis by (auto dest: fresh_room)
  qed
  with assms Some show ?thesis
    by (auto simp: startLeaseTimer_def Let_def fresh_handles_def clearTimeout_def less_Suc_eq
        split: option.splits if_splits)
qed

lemma close_cleanup_fresh:
  assumes "fresh_handles s"
  shows "fresh_handles (close_cleanup s w k now)"
proof (cases "rooms s k")
  case None
  then show ?thesis using assms by (simp add: close_cleanup_def)
next
  case (Some room)
  have "h < Suc (next_timer s)" if "h \<in> room_handles (room\<lparr> cleanupTimer := Some (next_timer s) \<rparr>)" for h
  proof -
    from that have "h \<in> room_handles room \<or> h = next_timer s" by (auto simp: room_handles_def)
    with assms Some show ?thesis by (auto dest: fresh_room)
  qed
  with assms Some show ?thesis
    by (auto simp: close_cleanup_def Let_def fresh_handles_def clearTimeout_def less_Suc_eq
        split: option.splits if_splits)
qed

lemma close_leave_fresh:
  assumes "fresh_handles s" "rooms s k = Some room"
  shows "fresh_handles (close_leave s w k room now)"
proof -
  have h: "\<forall>h\<in>room_handles room. h < next_timer s" using assms by (auto dest: fresh_room)
  have a: "fresh_handles (put_room s k (room\<lparr> spectators := x \<rparr>))" for x
    using assms(1) h by (intro fresh_put) (simp_all add: room_handles_def)
  have b: "fresh_handles (startLeaseTimer (put_room s k (room\<lparr> slots := x \<rparr>)) k i now)" for x i
    using assms(1) h by (intro startLeaseTimer_fresh fresh_put) (simp_all add: room_handles_def)
  show ?thesis using a b assms(1) by (auto simp: close_leave_def split: option.splits)
qed

lemma on_close_fresh: "fresh_handles s \<Longrightarrow> fresh_handles (on_close s w now)"
  by (auto simp: on_close_def Let_def close_cleanup_fresh close_leave_fresh split: option.splits)

lemma onLeaseExpire_fresh:
  assumes "fresh_handles s"
  shows "fresh_handles (fst (onLeaseExpire s k r))"
proof (cases "rooms s k")
  case None
  then show ?thesis using assms by (simp add: onLeaseExpire_def)
next
  case (Some room)
  then have h: "\<forall>h\<in>room_handles room. h < next_timer s" using assms by (auto dest: fresh_room)
  obtain res room1 where d: "dequeueNextLiveSpectator (conns s) room = (res, room1)"
    by (cases "dequeueNextLiveSpectator (conns s) room")
  have h1: "room_handles room1 = room_handles room"
    using d by (cases res) (auto dest!: dequeue_None dequeue_Some simp: room_handles_def)
  show ?thesis
  proof (cases res)
    case None
    have "fresh_handles (put_room s k
          (room1\<lparr> playerToken := a, playerLeaseExpiry := b,
                  playerLeaseTimer := (playerLeaseTimer room1)[r := None] \<rparr>))" for a b
    proof (intro fresh_put assms ballI)
      fix x assume "x \<in> room_handles (room1\<lparr> playerToken := a, playerLeaseExpiry := b,
                  playerLeaseTimer := (playerLeaseTimer room1)[r := None] \<rparr>)"
      then have "x \<in> room_handles (room1\<lparr> playerLeaseTimer := (playerLeaseTimer room1)[r := None] \<rparr>)"
        by (simp add: room_handles_def)
      then show "x < next_timer s" using h h1 by (auto dest: handles_upd)
    qed
    with Some d None assms show ?thesis by (simp add: onLeaseExpire_def)
  next
    case (Some p)
    have "fresh_handles (fst (seat s k room1 r p))"
      using assms h h1 by (intro seat_fresh) simp_all
    with \<open>rooms s k = Some room\<close> d Some assms show ?thesis
      by (auto simp: onLeaseExpire_def Let_def seat_eq split: prod.splits)
  qed
qed

lemma on_timeout_fresh:
  assumes "fresh_handles s"
  shows "fresh_handles (fst (on_timeout s h))"
proof -
  have a: "fresh_handles (s\<lparr> timers := (timers s)(h := None) \<rparr>)"
    using assms by (auto simp: fresh_handles_def)
  then have b: "fresh_handles (s\<lparr> timers := (timers s)(h := None), rooms := (rooms s)(k := None) \<rparr>)" for k
    by (auto simp: fresh_handles_def split: if_splits)
  show ?thesis using assms a b
    by (auto simp: on_timeout_def Let_def onLeaseExpire_fresh split: option.splits timer_callback.splits)
qed

lemma on_message_fresh: "fresh_handles s \<Longrightarrow> fresh_handles (fst (on_message s w msg now))"
proof (cases msg)
  case (SyncState mstate)
  assume f: "fresh_handles s"
  have "fresh_handles (put_room s k (room\<lparr> state := a, lastUpdated := b \<rparr>))"
    if "rooms s k = Some room" for k room a b
    using f that by (intro fresh_put) (auto simp: room_handles_def fresh_handles_def)
  with f SyncState show ?thesis
    by (auto simp: on_message_def on_syncState_def Let_def split: option.splits)
qed (auto simp: on_message_def on_join_fresh on_request_state_def on_chat_def Let_def split: option.splits)

lemma step_fresh: "fresh_handles s \<Longrightarrow> fresh_handles (fst (step s te))"
  by (cases te; cases "snd te")
     (auto simp: step_def on_connection_def set_ready_def fresh_conns on_message_fresh on_close_fresh
        on_timeout_fresh)

lemma run_fresh: "fresh_handles s \<Longrightarrow> fresh_handles (run s tes)"
  by (induction tes arbitrary: s) (simp_all add: step_fresh)

lemma init_fresh: "fresh_handles (init_server env)"
  by (simp add: fresh_handles_def init_server_def)

subsection \<open>Joining, closing and expiry, step by step\<close>

lemma on_join_reclaim:
  assumes "rooms s (str_or mroom ''room1'') = Some room"
    and "reclaim_ok room r (str_or mdev []) now" "r < 2"
    and "r = 1 \<longrightarrow> \<not> reclaim_ok room 0 (str_or mdev []) now"
  shows "on_join s w mroom mdev now =
           seat (join_fields s w (str_or mroom ''room1'') (str_or mdev [])) (str_or mroom ''room1'') room r w"
proof -
  from assms(3) consider "r = 0" | "r = 1" by (auto simp: less_Suc_eq numeral_2_eq_2)
  then show ?thesis
  proof cases
    case 1
    with assms(1,2) show ?thesis
      by (simp add: on_join_def getOrCreateRoom_def Let_def join_fields_def)
  next
    case 2
    with assms(1,2,4) show ?thesis
      by (simp add: on_join_def getOrCreateRoom_def Let_def join_fields_def)
  qed
qed

lemma on_join_fresh_seat:
  assumes "rooms s (str_or mroom ''room1'') = Some room"
    and "\<not> reclaim_ok room 0 (str_or mdev []) now" "\<not> reclaim_ok room 1 (str_or mdev []) now"
    and "fresh_ok room r now" "r < 2" "r = 1 \<longrightarrow> \<not> fresh_ok room 0 now"
  shows "on_join s w mroom mdev now =
           seat (join_fields s w (str_or mroom ''room1'') (str_or mdev [])) (str_or mroom ''room1'') room r w"
proof -
  from assms(5) consider "r = 0" | "r = 1" by (auto simp: less_Suc_eq numeral_2_eq_2)
  then show ?thesis
  proof cases
    case 1
    with assms(1,2,3,4) show ?thesis
      by (simp add: on_join_def getOrCreateRoom_def Let_def join_fields_def)
  next
    case 2
    with assms(1,2,3,4,6) show ?thesis
      by (simp add: on_join_def getOrCreateRoom_def Let_def join_fields_def)
  qed
qed

lemma seat_room:
  assumes "room_wf room" "r < 2" "seat s k room r w = (s', out)"
  shows "\<exists>room'. rooms s' k = Some room' \<and> room_wf room' \<and>
           slots room' = (slots room)[r := Some w] \<and>
           slots room' ! r = Some w \<and>
           playerToken room' ! r = (case deviceId (conns s w) of None \<Rightarrow> None | Some d \<Rightarrow> device_token d) \<and>
           playerLeaseExpiry room' ! r = 0 \<and> playerLeaseTimer room' ! r = None \<and>
           state room' = state room"
    and "roleIdx (conns s' w) = Some r"
    and "timers s' = clearTimeout (playerLeaseTimer room ! r) (timers s)"
    and "out = send s w (Role r) @ send_snapshot s w room"
  using assms
  by (auto simp: seat_def assignRole_def put_room_def Let_def room_wf_def device_token_def send_def
      send_snapshot_def split: option.splits)

lemma join_fields_simps [simp]:
  "rooms (join_fields s w k dev) = rooms s"
  "timers (join_fields s w k dev) = timers s"
  "next_timer (join_fields s w k dev) = next_timer s"
  "readyState (conns (join_fields s w k dev) p) = readyState (conns s p)"
  "deviceId (conns (join_fields s w k dev) w) = Some dev"
  by (simp_all add: join_fields_def)

lemma send_snapshot_join_fields [simp]:
  "send_snapshot (join_fields s w k dev) p room = send_snapshot s p room"
  "send (join_fields s w k dev) p m = send s p m"
  by (simp_all add: send_snapshot_def send_def split: option.splits)

lemma on_close_player_room:
  assumes "rooms s k = Some room" "room_wf room"
    and "roomId (conns s w) = Some k" "roleIdx (conns s w) = Some r" "r < 2"
    and "slots room ! r = Some w"
  shows "\<exists>c. rooms (on_close s w now) k =
           Some (room\<lparr> slots := (slots room)[r := None],
                       playerLeaseExpiry := (playerLeaseExpiry room)[r := now + ROLE_LEASE_MS s],
                       playerLeaseTimer := (playerLeaseTimer room)[r := Some (next_timer s)],
                       cleanupTimer := c \<rparr>)"
    and "conns (on_close s w now) = conns s"
    and "ROLE_LEASE_MS (on_close s w now) = ROLE_LEASE_MS s"
proof -
  let ?room0 = "room\<lparr> slots := (slots room)[r := None] \<rparr>"
  let ?s0 = "put_room s k ?room0"
  let ?s1 = "startLeaseTimer ?s0 k r now"
  have c: "on_close s w now = close_cleanup ?s1 w k now"
    using assms(1,3,4,5,6) by (rule on_close_player)
  have r0: "rooms ?s0 k = Some ?room0" by (simp add: put_room_def)
  from startLeaseTimer_room(1) [OF r0, of r now] close_cleanup_room
  obtain c' where "rooms (close_cleanup ?s1 w k now) k =
     Some (?room0\<lparr> playerLeaseExpiry := (playerLeaseExpiry ?room0)[r := now + ROLE_LEASE_MS ?s0],
                        playerLeaseTimer := (playerLeaseTimer ?room0)[r := Some (next_timer ?s0)],
                        cleanupTimer := c' \<rparr>)"
    by blast
  then show "\<exists>c. rooms (on_close s w now) k =
           Some (room\<lparr> slots := (slots room)[r := None],
                       playerLeaseExpiry := (playerLeaseExpiry room)[r := now + ROLE_LEASE_MS s],
                       playerLeaseTimer := (playerLeaseTimer room)[r := Some (next_timer s)],
                       cleanupTimer := c \<rparr>)"
    by (auto simp: c put_room_def)
  show "conns (on_close s w now) = conns s" by (rule on_close_frame)
  show "ROLE_LEASE_MS (on_close s w now) = ROLE_LEASE_MS s"
    by (simp add: c close_cleanup_lease startLeaseTimer_def put_room_def Let_def)
qed

lemma same_device_state:
  "rooms (run (init_server None) same_device_run) ''r'' = Some same_device_room"
  "conns (run (init_server None) same_device_run) 8 =
     \<lparr> readyState = OPEN, roomId = Some ''r'', roleIdx = Some 1, deviceId = Some ''D'' \<rparr>"
  "conns (run (init_server None) same_device_run) 9 =
     \<lparr> readyState = OPEN, roomId = None, roleIdx = None, deviceId = None \<rparr>"
  "ROLE_LEASE_MS (run (init_server None) same_device_run) = 90000"
  "next_timer (run (init_server None) same_device_run) = 1"
  by (simp_all add: same_device_run_def same_device_room_def handler_defs)

lemma pair_run_more:
  "conns (run (init_server None) pair_run) 8 =
     \<lparr> readyState = OPEN, roomId = Some ''r1'', roleIdx = Some 1, deviceId = Some ''d2'' \<rparr>"
  "conns (run (init_server None) pair_run) 7 =
     \<lparr> readyState = OPEN, roomId = Some ''r1'', roleIdx = Some 0, deviceId = Some ''d1'' \<rparr>"
  "ROLE_LEASE_MS (run (init_server None) pair_run) = 90000"
  "next_timer (run (init_server None) pair_run) = 0"
  "timers (run (init_server None) pair_run) = Map.empty"
  by (simp_all add: pair_run_def handler_defs)

lemma on_timeout_discard:
  assumes "rooms s k = Some room" "room_wf room" "r < 2" "slots room ! r = None"
    and "timers s h = Some tm" "callback tm = LeaseExpire k r"
    and "\<forall>d\<in>set (specQueue room). \<not> has_live (conns s) room d"
  shows "on_timeout s h =
           (put_room (s\<lparr> timers := (timers s)(h := None) \<rparr>) k
              (room\<lparr> specQueue := [],
                     playerToken := (playerToken room)[r := None],
                     playerLeaseExpiry := (playerLeaseExpiry room)[r := 0],
                     playerLeaseTimer := (playerLeaseTimer room)[r := None] \<rparr>), [])"
proof -
  let ?s1 = "s\<lparr> timers := (timers s)(h := None) \<rparr>"
  have d: "dequeueNextLiveSpectator (conns ?s1) room = (None, room\<lparr> specQueue := [] \<rparr>)"
    using assms(7) by (simp add: has_live_conv dequeue_all_stale)
  have "onLeaseExpire ?s1 k r =
          (put_room ?s1 k
              (room\<lparr> specQueue := [],
                     playerToken := (playerToken room)[r := None],
                     playerLeaseExpiry := (playerLeaseExpiry room)[r := 0],
                     playerLeaseTimer := (playerLeaseTimer room)[r := None] \<rparr>), [])"
    using assms(1,4) d by (simp add: onLeaseExpire_def)
  with assms(5,6) show ?thesis by (simp add: on_timeout_def Let_def)
qed

lemma other_slot: "r < 2 \<Longrightarrow> (1::nat) - r < 2 \<and> 1 - r \<noteq> r"
  by arith

lemma getOrCreateRoom_cases:
  assumes "getOrCreateRoom s k now = (s0, room)" "\<forall>room. rooms s k = Some room \<longrightarrow> room_wf room"
  shows "rooms s0 k = Some room" "room_wf room" "conns s0 = conns s" "ROLE_LEASE_MS s0 = ROLE_LEASE_MS s"
  using assms
  by (auto simp: getOrCreateRoom_def put_room_def new_room_def room_wf_def split: option.splits)

lemma on_join_seated:
  assumes "on_join s w mroom mdev now = (s1, out)" "roleIdx (conns s1 w) = Some r" "r < 2"
  shows "\<exists>s0 room. getOrCreateRoom s (str_or mroom ''room1'') now = (s0, room) \<and>
           seat (join_fields s0 w (str_or mroom ''room1'') (str_or mdev [])) (str_or mroom ''room1'') room r w = (s1, out)"
proof -
  let ?k = "str_or mroom ''room1''" and ?dev = "str_or mdev []"
  obtain s0 room where g: "getOrCreateRoom s ?k now = (s0, room)" by (cases "getOrCreateRoom s ?k now")
  let ?sj = "join_fields s0 w ?k ?dev"
  have seat_idx: "r' = r" if "seat ?sj ?k room r' w = (s1, out)" for r'
  proof -
    from that have "conns s1 = (conns ?sj)(w := (conns ?sj w)\<lparr>roleIdx := Some r'\<rparr>)"
      using seat_frame(2) [of ?sj ?k room r' w] by simp
    with assms(2) show ?thesis by simp
  qed
  have l: "0 < length (spectators (enqueueSpectator ?sj w room))"
    by (auto simp: enqueueSpectator_def Set_add_def)
  show ?thesis
  proof (cases "List.find (\<lambda>r. reclaim_ok room r ?dev now) [0, 1]")
    case (Some r')
    with assms(1) g have "seat ?sj ?k room r' w = (s1, out)"
      by (simp add: on_join_def Let_def join_fields_def)
    with seat_idx g show ?thesis by blast
  next
    case None
    show ?thesis
    proof (cases "List.find (\<lambda>r. fresh_ok room r now) [0, 1]")
      case (Some r')
      with assms(1) g None have "seat ?sj ?k room r' w = (s1, out)"
        by (simp add: on_join_def Let_def join_fields_def)
      with seat_idx g show ?thesis by blast
    next
      case None2: None
      with assms(1) g None have "roleIdx (conns s1 w) = Some (2 + length (spectators (enqueueSpectator ?sj w room)) - 1)"
        by (auto simp: on_join_def Let_def join_fields_def put_room_def)
      with assms(2,3) l show ?thesis by simp
    qed
  qed
qed

lemma on_join_slot_kept:
  assumes "rooms s (str_or mroom ''room1'') = Some room" "room_wf room" "r < 2"
    and "\<not> reclaim_ok room r (str_or mdev []) t" "\<not> fresh_ok room r t"
  shows "\<exists>room3. rooms (fst (on_join s w mroom mdev t)) (str_or mroom ''room1'') = Some room3 \<and>
           room_wf room3 \<and>
           slots room3 ! r = slots room ! r \<and> playerToken room3 ! r = playerToken room ! r \<and>
           playerLeaseExpiry room3 ! r = playerLeaseExpiry room ! r"
proof -
  let ?k = "str_or mroom ''room1''" and ?dev = "str_or mdev []"
  let ?sj = "s\<lparr> conns := (conns s)(w := (conns s w)\<lparr> roomId := Some ?k, deviceId := Some ?dev \<rparr>) \<rparr>"
  have g: "getOrCreateRoom s ?k t = (s, room)" using assms(1) by (simp add: getOrCreateRoom_def)
  have st: "\<exists>room3. rooms (fst (seat ?sj ?k room r' w)) ?k = Some room3 \<and> room_wf room3 \<and>
      slots room3 ! r = slots room ! r \<and> playerToken room3 ! r = playerToken room ! r \<and>
      playerLeaseExpiry room3 ! r = playerLeaseExpiry room ! r"
    if "r' \<noteq> r" for r'
    using that assms(2) by (simp add: seat_eq put_room_def assignRole_def room_wf_def)
  have sp: "\<exists>room3. rooms (put_room (?sj\<lparr> conns := c \<rparr>) ?k (enqueueSpectator ?sj w room)) ?k = Some room3 \<and>
      room_wf room3 \<and>
      slots room3 ! r = slots room ! r \<and> playerToken room3 ! r = playerToken room ! r \<and>
      playerLeaseExpiry room3 ! r = playerLeaseExpiry room ! r" for c
    using assms(2) by (simp add: put_room_def enqueueSpectator_def room_wf_def)
  show ?thesis
  proof (cases "List.find (\<lambda>r. reclaim_ok room r ?dev t) [0, 1]")
    case (Some r')
    from find01 [OF Some] assms(4) have "r' \<noteq> r" by auto
    from st [OF this] Some g show ?thesis by (simp add: on_join_def Let_def)
  next
    case None
    show ?thesis
    proof (cases "List.find (\<lambda>r. fresh_ok room r t) [0, 1]")
      case (Some r')
      from find01 [OF Some] assms(5) have "r' \<noteq> r" by auto
      from st [OF this] Some None g show ?thesis by (simp add: on_join_def Let_def)
    next
      case None2: None
      with None g sp show ?thesis by (simp add: on_join_def Let_def)
    qed
  qed
qed

lemmas run_defs = handler_defs dequeueNextLiveSpectator.simps live_spectator_def

lemma two_vacant_state:
  "rooms (run (init_server None) two_vacant_run) ''r'' = Some two_vacant_room"
  "timers (run (init_server None) two_vacant_run) 0 = Some \<lparr> due = 91000, callback = LeaseExpire ''r'' 0 \<rparr>"
  "conns (run (init_server None) two_vacant_run) 9 =
     \<lparr> readyState = OPEN, roomId = None, roleIdx = None, deviceId = None \<rparr>"
  by (simp_all add: two_vacant_run_def two_vacant_room_def handler_defs)

lemma fresh_pair_state:
  "rooms (run (init_server None) fresh_pair_run) = Map.empty"
  "ROLE_LEASE_MS (run (init_server None) fresh_pair_run) = 90000"
  by (simp_all add: fresh_pair_run_def handler_defs)

lemma join_reclaims_slot:
  assumes "rooms s2 k = Some room2" "room_wf room2" "r < 2"
    and "slots room2 ! r = None" "playerToken room2 ! r = Some D" "D \<noteq> []"
    and "playerLeaseExpiry room2 ! r = 0 \<or> t1 < playerLeaseExpiry room2 ! r"
    and "playerLeaseTimer room2 ! r = h"
    and "str_or mroom ''room1'' = k" "str_or mdev [] = D"
    and "readyState (conns s2 w1) = OPEN"
    and "r = 1 \<longrightarrow> \<not> reclaim_ok room2 0 D t1"
  shows "\<exists>room'. rooms (fst (on_join s2 w1 mroom mdev t1)) k = Some room' \<and> slots room' ! r = Some w1 \<and>
           roleIdx (conns (fst (on_join s2 w1 mroom mdev t1)) w1) = Some r \<and>
           playerToken room' ! r = Some D \<and> playerLeaseExpiry room' ! r = 0 \<and>
           playerLeaseTimer room' ! r = None \<and>
           timers (fst (on_join s2 w1 mroom mdev t1)) = clearTimeout h (timers s2) \<and>
           (\<exists>rest. snd (on_join s2 w1 mroom mdev t1) = (w1, Role r) # rest) \<and>
           (\<forall>st. state room2 = Some st \<and> js_truthy st \<longrightarrow>
              snd (on_join s2 w1 mroom mdev t1) = [(w1, Role r), (w1, SyncStateMsg st)])"
proof -
  obtain s' out where e: "on_join s2 w1 mroom mdev t1 = (s', out)" by (cases "on_join s2 w1 mroom mdev t1")
  have ok: "reclaim_ok room2 r D t1" using assms(4,5,6,7) by (simp add: reclaim_ok_def)
  have k: "rooms s2 (str_or mroom ''room1'') = Some room2" using assms(1,9) by simp
  have j: "on_join s2 w1 mroom mdev t1 = seat (join_fields s2 w1 k D) k room2 r w1"
    using on_join_reclaim [OF k, of r mdev t1 w1] ok assms(3,9,10,12) by simp
  with e have st: "seat (join_fields s2 w1 k D) k room2 r w1 = (s', out)" by simp
  note S = seat_room [OF assms(2,3) st]
  from S(1) obtain room' where r': "rooms s' k = Some room'" "slots room' ! r = Some w1"
    "playerToken room' ! r = (case deviceId (conns (join_fields s2 w1 k D) w1) of None \<Rightarrow> None | Some d \<Rightarrow> device_token d)"
    "playerLeaseExpiry room' ! r = 0" "playerLeaseTimer room' ! r = None"
    by blast
  have tok: "playerToken room' ! r = Some D"
    using r'(3) assms(6) by (simp add: device_token_def)
  have tm: "timers s' = clearTimeout h (timers s2)" using S(3) assms(8) by simp
  have o: "out = send s2 w1 (Role r) @ send_snapshot s2 w1 room2" using S(4) by simp
  have o1: "\<exists>rest. out = (w1, Role r) # rest" using o assms(11) by (simp add: send_def)
  have o2: "\<forall>st. state room2 = Some st \<and> js_truthy st \<longrightarrow> out = [(w1, Role r), (w1, SyncStateMsg st)]"
    using o assms(11) by (auto simp: send_def send_snapshot_def)
  from r'(1,2,4,5) S(2) tok tm o1 o2 show ?thesis unfolding e fst_conv snd_conv by blast
qed

lemma join_fresh_slot:
  assumes "rooms s2 k = Some room2" "room_wf room2" "r < 2"
    and "slots room2 ! r = None" "playerToken room2 ! r = None" "playerLeaseExpiry room2 ! r = 0"
    and "str_or mroom ''room1'' = k"
    and "\<not> reclaim_ok room2 (1 - r) (str_or mdev []) t"
    and "r = 1 \<longrightarrow> \<not> fresh_ok room2 0 t"
  shows "(\<forall>r'<2. \<not> reclaim_ok room2 r' (str_or mdev []) t) \<and> fresh_ok room2 r t \<and>
         (\<exists>room3. rooms (fst (on_join s2 w mroom mdev t)) k = Some room3 \<and>
            slots room3 ! r = Some w \<and> playerToken room3 ! r = device_token (str_or mdev [])) \<and>
         roleIdx (conns (fst (on_join s2 w mroom mdev t)) w) = Some r"
proof -
  let ?dev = "str_or mdev []"
  have nr: "\<not> reclaim_ok room2 r ?dev t" using assms(5) by (simp add: reclaim_ok_def)
  have fr: "fresh_ok room2 r t" using assms(4,6) by (simp add: fresh_ok_def)
  have all: "\<not> reclaim_ok room2 r' ?dev t" if "r' < 2" for r'
  proof (cases "r' = r")
    case True
    then show ?thesis by (simp add: nr)
  next
    case False
    with that assms(3) have "r' = 1 - r" by auto
    with assms(8) show ?thesis by simp
  qed
  have k: "rooms s2 (str_or mroom ''room1'') = Some room2" using assms(1,7) by simp
  have j: "on_join s2 w mroom mdev t = seat (join_fields s2 w k ?dev) k room2 r w"
    using on_join_fresh_seat [OF k all [of 0] all [of 1] fr assms(3,9)] assms(7) by simp
  obtain s' out where st: "seat (join_fields s2 w k ?dev) k room2 r w = (s', out)"
    by (cases "seat (join_fields s2 w k ?dev) k room2 r w")
  note S = seat_room [OF assms(2,3) st]
  from S(1) obtain room3 where "rooms s' k = Some room3" "slots room3 ! r = Some w"
    "playerToken room3 ! r = (case deviceId (conns (join_fields s2 w k ?dev) w) of None \<Rightarrow> None | Some d \<Rightarrow> device_token d)"
    by blast
  then have "\<exists>room3. rooms s' k = Some room3 \<and> slots room3 ! r = Some w \<and>
      playerToken room3 ! r = device_token ?dev"
    by simp
  with S(2) all fr show ?thesis by (simp add: j st)
qed

lemma pair_close_state:
  "rooms (on_close (run (init_server None) pair_run) 8 2000) ''r1'' = Some pair_closed_room"
  "readyState (conns (on_close (run (init_server None) pair_run) 8 2000) 9) = OPEN"
proof -
  show "rooms (on_close (run (init_server None) pair_run) 8 2000) ''r1'' = Some pair_closed_room"
    using pair_run_room pair_run_more
    by (simp add: on_close_def room_key_def Let_def close_leave_def close_cleanup_def startLeaseTimer_def
        put_room_def peers_def clearTimeout_def pair_room_def pair_closed_room_def)
  show "readyState (conns (on_close (run (init_server None) pair_run) 8 2000) 9) = OPEN"
    using pair_run_conns by (simp add: on_close_frame)
qed

subsection \<open>Reachable states\<close>

text \<open>
  The side conditions of the theorems below hold in every state the server can reach: timer
  handles are fresh after any run, and after a run of the transport in which each connection
  joins at most once the rooms are consistent with the connection table, so that the
  occupant of a slot records that room and that slot, and the arrays of a room have length 2.
\<close>

lemma reachable_fresh: "fresh_handles (run (init_server env) tes)"
  by (intro run_fresh init_fresh)

lemma reachable_inv:
  "valid_run (init_server env) tes \<Longrightarrow> single_join_run (init_server env) tes \<Longrightarrow>
     server_inv (run (init_server env) tes)"
  by (intro inv_run inv_init)

lemma reachable_occupant:
  assumes "valid_run (init_server env) tes" "single_join_run (init_server env) tes"
    and "rooms (run (init_server env) tes) k = Some room" "r < 2" "slots room ! r = Some w"
  shows "room_wf room \<and> roomId (conns (run (init_server env) tes) w) = Some k \<and>
         roleIdx (conns (run (init_server env) tes) w) = Some r"
  using reachable_inv [OF assms(1,2)] assms(3,4,5)
  by (auto simp: server_inv_def rooms_ok_def room_ok_def)

section \<open>The claims\<close>

subsection \<open>C2: one position per session\<close>

text \<open>
  C2, as stated, quantifies over every sequence of events. The join handler does not look
  at whether the connection already sits in a room, so a connection that sends \<open>join\<close>
  twice for the same room is seated in slot 0 and then in slot 1: after \<open>double_join\<close>, a
  run the transport can produce, session 1 occupies both player slots of room \<open>r\<close>.
\<close>

theorem exclusive_counterexample:
  "valid_run (init_server None) double_join \<and> \<not> exclusive (run (init_server None) double_join)"
proof -
  have v: "valid_run (init_server None) double_join"
    by (simp add: double_join_def handler_defs)
  have s: "map_option slots (rooms (run (init_server None) double_join) ''r'') = Some [Some 1, Some 1]"
    by (simp add: double_join_def handler_defs)
  then have "occupies (run (init_server None) double_join) 1 ''r'' (Player 0)"
    and "occupies (run (init_server None) double_join) 1 ''r'' (Player 1)"
    by (auto simp: occupies_def split: option.splits)
  then have "\<not> exclusive (run (init_server None) double_join)"
    unfolding exclusive_def by (metis position.inject zero_neq_one)
  with v show ?thesis by simp
qed

text \<open>
  C2, amended: in every run from the initial state in which each connection sends \<open>join\<close>
  at most once (the protocol of the specification: the join handler is invoked once per
  connection), every session occupies at most one position (a player slot or the spectator
  set) in at most one room, whatever the joins, disconnects, lease expiries and promotions.
  A slot holds at most one session and a session has one role field by the types of
  \<open>slots\<close> and \<open>roleIdx\<close>.
\<close>

theorem exclusive_single_join:
  assumes "valid_run (init_server env) tes" "single_join_run (init_server env) tes"
  shows "exclusive (run (init_server env) tes)"
  using assms by (intro inv_exclusive inv_run inv_init)

theorem exclusive_single_join_witness:
  "valid_run (init_server None) scenario \<and> single_join_run (init_server None) scenario \<and>
   exclusive (run (init_server None) scenario)"
proof -
  have v: "valid_run (init_server None) scenario"
    by (simp add: scenario_def handler_defs)
  have j: "single_join_run (init_server None) scenario"
    by (simp add: scenario_def handler_defs)
  from exclusive_single_join [OF v j] v j show ?thesis by simp
qed

subsection \<open>C5: promotion order\<close>

text \<open>
  C5: when the lease of an empty slot \<open>r\<close> expires, \<open>dequeueNextLiveSpectator\<close> returns none
  exactly when no queued device id has an open spectator session; and whenever the queue
  is \<open>stale @ dev # rest\<close>, no id of \<open>stale\<close> has a live session and \<open>dev\<close> has one, the
  session returned and seated in slot \<open>r\<close> is an open spectator with device id \<open>dev\<close>, it
  leaves the spectators, and the queue that remains is \<open>rest\<close>: the stale ids and \<open>dev\<close>
  are gone, the ids queued later keep their order. With no live id the slot stays empty
  and the queue ends empty.
\<close>

theorem promotion_fifo:
  assumes "rooms s k = Some room" "r < length (slots room)" "slots room ! r = None"
  shows "((fst (dequeueNextLiveSpectator (conns s) room) = None) =
            (\<forall>d\<in>set (specQueue room). \<not> has_live (conns s) room d)) \<and>
         (\<forall>stale dev rest.
            specQueue room = stale @ dev # rest \<and> (\<forall>d\<in>set stale. \<not> has_live (conns s) room d) \<and>
            has_live (conns s) room dev \<longrightarrow>
            (\<exists>p room'. p \<in> set (spectators room) \<and> readyState (conns s p) = OPEN \<and>
               deviceId (conns s p) = Some dev \<and>
               fst (dequeueNextLiveSpectator (conns s) room) = Some p \<and>
               rooms (fst (onLeaseExpire s k r)) k = Some room' \<and>
               slots room' ! r = Some p \<and> specQueue room' = rest \<and>
               spectators room' = Set_delete p (spectators room))) \<and>
         ((\<forall>d\<in>set (specQueue room). \<not> has_live (conns s) room d) \<longrightarrow>
            (\<exists>room'. rooms (fst (onLeaseExpire s k r)) k = Some room' \<and>
               slots room' ! r = None \<and> specQueue room' = [] \<and>
               spectators room' = spectators room))"
proof (intro conjI allI impI)
  show "(fst (dequeueNextLiveSpectator (conns s) room) = None) =
          (\<forall>d\<in>set (specQueue room). \<not> has_live (conns s) room d)"
  proof
    assume n: "fst (dequeueNextLiveSpectator (conns s) room) = None"
    then obtain room1 where "dequeueNextLiveSpectator (conns s) room = (None, room1)"
      by (cases "dequeueNextLiveSpectator (conns s) room") simp
    then show "\<forall>d\<in>set (specQueue room). \<not> has_live (conns s) room d"
      by (simp add: has_live_conv dequeue_None)
  next
    assume "\<forall>d\<in>set (specQueue room). \<not> has_live (conns s) room d"
    then show "fst (dequeueNextLiveSpectator (conns s) room) = None"
      by (simp add: has_live_conv dequeue_all_stale)
  qed
next
  fix stale dev rest
  assume a: "specQueue room = stale @ dev # rest \<and> (\<forall>d\<in>set stale. \<not> has_live (conns s) room d) \<and>
            has_live (conns s) room dev"
  then obtain p where l: "live_spectator (conns s) room dev = Some p"
    by (auto simp: has_live_conv)
  from a have st: "\<forall>d\<in>set stale. live_spectator (conns s) room d = None"
    by (simp add: has_live_conv)
  from a have q: "specQueue room = stale @ dev # rest" by simp
  note d = dequeue_decomp [OF q st l]
  from onLeaseExpire_promote [OF assms d] obtain room' where
    "rooms (fst (onLeaseExpire s k r)) k = Some room'" "slots room' ! r = Some p"
    "specQueue room' = rest" "spectators room' = Set_delete p (spectators room)"
    by blast
  with live_spectator_Some [OF l] d
  show "\<exists>p room'. p \<in> set (spectators room) \<and> readyState (conns s p) = OPEN \<and>
               deviceId (conns s p) = Some dev \<and>
               fst (dequeueNextLiveSpectator (conns s) room) = Some p \<and>
               rooms (fst (onLeaseExpire s k r)) k = Some room' \<and>
               slots room' ! r = Some p \<and> specQueue room' = rest \<and>
               spectators room' = Set_delete p (spectators room)"
    by auto
next
  assume "\<forall>d\<in>set (specQueue room). \<not> has_live (conns s) room d"
  then have "dequeueNextLiveSpectator (conns s) room = (None, room\<lparr> specQueue := [] \<rparr>)"
    by (simp add: has_live_conv dequeue_all_stale)
  from onLeaseExpire_discard [OF assms this] assms(3)
  show "\<exists>room'. rooms (fst (onLeaseExpire s k r)) k = Some room' \<and>
               slots room' ! r = None \<and> specQueue room' = [] \<and>
               spectators room' = spectators room"
    by (simp add: put_room_def)
qed

theorem promotion_fifo_witness:
  "rooms (run (init_server None) queue_run) ''r1'' = Some queue_room \<and>
   0 < length (slots queue_room) \<and> slots queue_room ! 0 = None \<and>
   (\<exists>room'. rooms (fst (onLeaseExpire (run (init_server None) queue_run) ''r1'' 0)) ''r1'' = Some room' \<and>
      slots room' ! 0 = Some 4 \<and> specQueue room' = [] \<and> spectators room' = [])"
proof -
  let ?s = "run (init_server None) queue_run"
  have h1: "rooms ?s ''r1'' = Some queue_room" by (rule queue_run_room)
  have h2: "0 < length (slots queue_room)" by (simp add: queue_room_def)
  have h3: "slots queue_room ! 0 = None" by (simp add: queue_room_def)
  have q: "specQueue queue_room = [''d3''] @ ''d4'' # []" by (simp add: queue_room_def)
  have st: "\<forall>d\<in>set [''d3'']. \<not> has_live (conns ?s) queue_room d"
    by (simp add: has_live_def queue_room_def queue_run_conns)
  have lv: "has_live (conns ?s) queue_room ''d4''"
    by (simp add: has_live_def queue_room_def queue_run_conns)
  from promotion_fifo [OF h1 h2 h3] q st lv
  obtain p room' where "p \<in> set (spectators queue_room)"
    "rooms (fst (onLeaseExpire ?s ''r1'' 0)) ''r1'' = Some room'"
    "slots room' ! 0 = Some p" "specQueue room' = []"
    "spectators room' = Set_delete p (spectators queue_room)"
    by blast
  then have "rooms (fst (onLeaseExpire ?s ''r1'' 0)) ''r1'' = Some room' \<and>
      slots room' ! 0 = Some 4 \<and> specQueue room' = [] \<and> spectators room' = []"
    by (simp add: queue_room_def Set_delete_def)
  with h1 h2 h3 show ?thesis by blast
qed

subsection \<open>C6: acceptance of \<open>syncState\<close>\<close>




subsection \<open>C7: a player disconnects\<close>

text \<open>
  C7: when the connection \<open>w\<close> that closes is still the occupant of slot \<open>r\<close> of its room,
  the close handler empties the slot, leaves \<open>playerToken\<close> as it was, sets
  \<open>playerLeaseExpiry[r]\<close> to \<open>now + ROLE_LEASE_MS\<close>, cancels the lease timer the slot
  referred to, and schedules \<open>onLeaseExpire(roomId, r)\<close> at \<open>now + ROLE_LEASE_MS\<close>; the
  handle of that timer is stored in \<open>playerLeaseTimer[r]\<close>. Without a setting in the
  environment \<open>ROLE_LEASE_MS\<close> is 90000.
\<close>

theorem close_starts_lease:
  assumes "rooms s k = Some room" "room_wf room"
    and "roomId (conns s w) = Some k" "roleIdx (conns s w) = Some r" "r < 2"
    and "slots room ! r = Some w" "\<forall>h\<in>room_handles room. h < next_timer s"
  shows "\<exists>room'. rooms (on_close s w now) k = Some room' \<and>
           slots room' ! r = None \<and>
           playerToken room' = playerToken room \<and>
           playerLeaseExpiry room' ! r = now + ROLE_LEASE_MS s \<and>
           playerLeaseTimer room' ! r = Some (next_timer s) \<and>
           timers (on_close s w now) (next_timer s) =
             Some \<lparr> due = now + ROLE_LEASE_MS s, callback = LeaseExpire k r \<rparr> \<and>
           (\<forall>h. playerLeaseTimer room ! r = Some h \<longrightarrow> timers (on_close s w now) h = None) \<and>
           ROLE_LEASE_MS (init_server None) = 90000"
proof -
  let ?room0 = "room\<lparr> slots := (slots room)[r := None] \<rparr>"
  let ?s0 = "put_room s k ?room0"
  let ?s1 = "startLeaseTimer ?s0 k r now"
  let ?room1 = "?room0\<lparr> playerLeaseExpiry := (playerLeaseExpiry ?room0)[r := now + ROLE_LEASE_MS s],
                        playerLeaseTimer := (playerLeaseTimer ?room0)[r := Some (next_timer s)] \<rparr>"
  have c: "on_close s w now = close_cleanup ?s1 w k now"
    using assms(1,3,4,5,6) by (rule on_close_player)
  have r0: "rooms ?s0 k = Some ?room0" by (simp add: put_room_def)
  note S = startLeaseTimer_room [OF r0, of r now]
  have r1: "rooms ?s1 k = Some ?room1" using S(1) by (simp add: put_room_def)
  have n1: "next_timer ?s1 = Suc (next_timer s)" using S(3) by (simp add: put_room_def)
  have t1: "timers ?s1 = (clearTimeout (playerLeaseTimer room ! r) (timers s))
             (next_timer s \<mapsto> \<lparr> due = now + ROLE_LEASE_MS s, callback = LeaseExpire k r \<rparr>)"
    using S(2) by (simp add: put_room_def)
  have len: "r < length (slots room)" "r < length (playerLeaseExpiry room)" "r < length (playerLeaseTimer room)"
    using assms(2,5) by (simp_all add: room_wf_def)
  have cl: "cleanupTimer room \<noteq> Some (next_timer s)"
    using assms(7) by (auto simp: room_handles_def)
  have old: "h < next_timer s" if "playerLeaseTimer room ! r = Some h" for h
  proof -
    from that len(3) have "Some h \<in> set (playerLeaseTimer room)" by (metis nth_mem)
    then have "h \<in> room_handles room" by (auto simp: room_handles_def)
    with assms(7) show ?thesis by simp
  qed
  from close_cleanup_room [OF r1] obtain c' where
    r2: "rooms (close_cleanup ?s1 w k now) k = Some (?room1\<lparr> cleanupTimer := c' \<rparr>)" by blast
  have tn: "timers (close_cleanup ?s1 w k now) (next_timer s) = timers ?s1 (next_timer s)"
    using r1 by (rule close_cleanup_timers) (simp_all add: n1 cl)
  have th: "timers (close_cleanup ?s1 w k now) h = None" if "playerLeaseTimer room ! r = Some h" for h
  proof -
    from old [OF that] have lt: "h < next_timer s" .
    have ch: "cleanupTimer room = Some h \<Longrightarrow> False" if False using that by simp
    show ?thesis
    proof (cases "cleanupTimer room = Some h")
      case True
      with r1 lt show ?thesis
        by (auto simp: close_cleanup_def Let_def clearTimeout_def n1 t1 that split: option.splits)
    next
      case False
      have "timers (close_cleanup ?s1 w k now) h = timers ?s1 h"
        using r1 by (rule close_cleanup_timers) (use lt False in \<open>simp_all add: n1\<close>)
      with lt that show ?thesis by (simp add: t1 clearTimeout_def)
    qed
  qed
  show ?thesis
    using r2 tn th len by (simp add: c t1 init_server_def)
qed

theorem close_starts_lease_witness:
  "rooms (run (init_server None) full_run) ''r1'' = Some full_room \<and> room_wf full_room \<and>
   roomId (conns (run (init_server None) full_run) 7) = Some ''r1'' \<and>
   roleIdx (conns (run (init_server None) full_run) 7) = Some 0 \<and> (0::nat) < 2 \<and>
   slots full_room ! 0 = Some 7 \<and>
   room_handles full_room = {} \<and>
   timers (on_close (run (init_server None) full_run) 7 1000) 0 =
      Some \<lparr> due = 91000, callback = LeaseExpire ''r1'' 0 \<rparr>"
proof -
  let ?s = "run (init_server None) full_run"
  have h1: "rooms ?s ''r1'' = Some full_room" by (rule full_run_room)
  have h2: "room_wf full_room" by (simp add: room_wf_def full_room_def)
  have h3: "roomId (conns ?s 7) = Some ''r1''" using full_run_conns by simp
  have h4: "roleIdx (conns ?s 7) = Some 0" using full_run_conns by simp
  have h5: "(0::nat) < 2" by simp
  have h6: "slots full_room ! 0 = Some 7" by (simp add: full_room_def)
  have h7: "\<forall>h\<in>room_handles full_room. h < next_timer ?s"
    by (simp add: room_handles_def full_room_def)
  from close_starts_lease [OF h1 h2 h3 h4 h5 h6 h7, of 1000]
  have "timers (on_close ?s 7 1000) 0 = Some \<lparr> due = 91000, callback = LeaseExpire ''r1'' 0 \<rparr>"
    by (auto simp: full_run_misc)
  moreover have "room_handles full_room = {}" by (simp add: room_handles_def full_room_def)
  ultimately show ?thesis using h1 h2 h3 h4 h5 h6 by blast
qed

subsection \<open>C8: completeness of the broadcast\<close>

text \<open>
  C8: when the occupant of slot 0 sends a \<open>syncState\<close> with a payload of object shape, the
  occupant of slot 1, if open, and every open spectator are sent that \<open>syncState\<close>; every
  delivery carries the one payload built for the broadcast; the room stores the payload as
  its snapshot; and a \<open>request_state\<close> that follows, from any open connection of the
  room, is answered with exactly that snapshot and changes nothing.
\<close>

theorem syncState_broadcast:
  assumes "rooms s k = Some room" "slots room ! 0 = Some w"
    and "roomId (conns s w) = Some k" "roleIdx (conns s w) = Some 0"
    and "object_shape st" "on_syncState s w (Some st) now = (s', out)"
  shows "(\<forall>p. slots room ! 1 = Some p \<and> readyState (conns s p) = OPEN \<longrightarrow> (p, SyncStateMsg st) \<in> set out) \<and>
         (\<forall>p\<in>set (spectators room). readyState (conns s p) = OPEN \<longrightarrow> (p, SyncStateMsg st) \<in> set out) \<and>
         (\<forall>d\<in>set out. snd d = SyncStateMsg st) \<and>
         (\<exists>room'. rooms s' k = Some room' \<and> state room' = Some st) \<and>
         (\<forall>q. roomId (conns s' q) = Some k \<and> readyState (conns s' q) = OPEN \<longrightarrow>
              on_request_state s' q = (s', [(q, SyncStateMsg st)]))"
proof -
  have k: "room_key (roomId (conns s w)) = k" using assms(3) by (simp add: room_key_def)
  let ?s1 = "put_room s k (room\<lparr> state := Some st, lastUpdated := now \<rparr>)"
  from assms have acc: "s' = ?s1" "out = broadcast ?s1 k (SyncStateMsg st)"
    by (auto simp: on_syncState_def Let_def room_key_def object_shape_conv)
  have b: "out = map (\<lambda>p. (p, SyncStateMsg st)) (filter (\<lambda>p. readyState (conns s p) = OPEN) (members room))"
    unfolding acc
    by (subst broadcast_members [where room = "room\<lparr> state := Some st, lastUpdated := now \<rparr>"])
       (simp_all add: put_room_def)
  have t: "js_truthy st" using assms(5) by (simp add: object_shape_conv)
  show ?thesis
  proof (intro conjI allI impI ballI)
    fix p assume "slots room ! 1 = Some p \<and> readyState (conns s p) = OPEN"
    then show "(p, SyncStateMsg st) \<in> set out" by (auto simp: b members_def)
  next
    fix p assume "p \<in> set (spectators room)" "readyState (conns s p) = OPEN"
    then show "(p, SyncStateMsg st) \<in> set out" by (auto simp: b members_def)
  next
    fix d assume "d \<in> set out"
    then show "snd d = SyncStateMsg st" by (auto simp: b)
  next
    show "\<exists>room'. rooms s' k = Some room' \<and> state room' = Some st"
      by (simp add: acc put_room_def)
  next
    fix q assume "roomId (conns s' q) = Some k \<and> readyState (conns s' q) = OPEN"
    then show "on_request_state s' q = (s', [(q, SyncStateMsg st)])"
      using t by (simp add: on_request_state_def acc put_room_def room_key_def send_snapshot_def send_def)
  qed
qed

theorem syncState_broadcast_witness:
  "rooms (run (init_server None) full_run) ''r1'' = Some full_room \<and>
   slots full_room ! 0 = Some 7 \<and>
   roomId (conns (run (init_server None) full_run) 7) = Some ''r1'' \<and>
   roleIdx (conns (run (init_server None) full_run) 7) = Some 0 \<and>
   object_shape (JArr [JNum 7]) \<and>
   (8, SyncStateMsg (JArr [JNum 7])) \<in> set (snd (on_syncState (run (init_server None) full_run) 7 (Some (JArr [JNum 7])) 10)) \<and>
   (9, SyncStateMsg (JArr [JNum 7])) \<in> set (snd (on_syncState (run (init_server None) full_run) 7 (Some (JArr [JNum 7])) 10)) \<and>
   on_request_state (fst (on_syncState (run (init_server None) full_run) 7 (Some (JArr [JNum 7])) 10)) 9 =
     (fst (on_syncState (run (init_server None) full_run) 7 (Some (JArr [JNum 7])) 10), [(9, SyncStateMsg (JArr [JNum 7]))])"
proof -
  let ?s = "run (init_server None) full_run"
  let ?st = "JArr [JNum 7]"
  obtain s' out where e: "on_syncState ?s 7 (Some ?st) 10 = (s', out)"
    by (cases "on_syncState ?s 7 (Some ?st) 10")
  have h1: "rooms ?s ''r1'' = Some full_room" by (rule full_run_room)
  have h2: "slots full_room ! 0 = Some 7" by (simp add: full_room_def)
  have h3: "roomId (conns ?s 7) = Some ''r1''" using full_run_conns by simp
  have h4: "roleIdx (conns ?s 7) = Some 0" using full_run_conns by simp
  have h5: "object_shape ?st" by (simp add: object_shape_def)
  note T = syncState_broadcast [OF h1 h2 h3 h4 h5 e]
  have c: "conns s' = conns ?s"
    using e on_syncState_frame(1) [of ?s 7 "Some ?st" 10] by simp
  from T have a: "(8, SyncStateMsg ?st) \<in> set out"
    using full_run_conns by (simp add: full_room_def)
  from T have b: "(9, SyncStateMsg ?st) \<in> set out"
    using full_run_conns by (simp add: full_room_def)
  from T have "roomId (conns s' 9) = Some ''r1'' \<and> readyState (conns s' 9) = OPEN \<longrightarrow>
      on_request_state s' 9 = (s', [(9, SyncStateMsg ?st)])" by blast
  then have d: "on_request_state s' 9 = (s', [(9, SyncStateMsg ?st)])"
    using full_run_conns by (simp add: c)
  from h1 h2 h3 h4 h5 a b d show ?thesis by (simp add: e)
qed

subsection \<open>C9: the spectator path\<close>

text \<open>
  C9: when neither loop of the join handler seats the connection (no slot can be
  reclaimed with its device id and none is a fresh seat), the connection is added to
  \<open>spectators\<close>, its device id is appended to \<open>specQueue\<close> exactly when it is non-empty
  and not yet in the queue, and the role index it records and is acknowledged with is
  \<open>2 + (n - 1)\<close>, \<open>n\<close> the number of spectators after the insertion: 2 for the first
  spectator of a full room.
\<close>

theorem join_spectator:
  assumes "rooms s (str_or mroom ''room1'') = Some room"
    and "\<forall>r<2. \<not> reclaim_ok room r (str_or mdev []) now \<and> \<not> fresh_ok room r now"
    and "on_join s w mroom mdev now = (s', out)"
  shows "\<exists>room'. rooms s' (str_or mroom ''room1'') = Some room' \<and>
           w \<in> set (spectators room') \<and> spectators room' = Set_add w (spectators room) \<and>
           specQueue room' =
             (if str_or mdev [] \<noteq> [] \<and> str_or mdev [] \<notin> set (specQueue room)
              then specQueue room @ [str_or mdev []] else specQueue room) \<and>
           roleIdx (conns s' w) = Some (2 + (length (spectators room') - 1)) \<and>
           (readyState (conns s w) = OPEN \<longrightarrow>
              (\<exists>rest. out = (w, Role (2 + (length (spectators room') - 1))) # rest)) \<and>
           (spectators room = [] \<longrightarrow> roleIdx (conns s' w) = Some 2)"
proof -
  let ?k = "str_or mroom ''room1''" and ?dev = "str_or mdev []"
  let ?s = "s\<lparr> conns := (conns s)(w := (conns s w)\<lparr> roomId := Some ?k, deviceId := Some ?dev \<rparr>) \<rparr>"
  let ?room1 = "enqueueSpectator ?s w room"
  let ?idx = "2 + length (spectators ?room1) - 1"
  let ?s2 = "put_room (?s\<lparr> conns := (conns ?s)(w := (conns ?s w)\<lparr> roleIdx := Some ?idx \<rparr>) \<rparr>) ?k ?room1"
  from assms(2) have n: "\<not> reclaim_ok room 0 ?dev now" "\<not> reclaim_ok room 1 ?dev now"
    "\<not> fresh_ok room 0 now" "\<not> fresh_ok room 1 now"
    by simp_all
  have j: "on_join s w mroom mdev now = (?s2, send ?s2 w (Role ?idx) @ send_snapshot ?s2 w ?room1)"
    using assms(1) n by (simp add: on_join_def getOrCreateRoom_def Let_def)
  have s': "s' = ?s2" and out: "out = send ?s2 w (Role ?idx) @ send_snapshot ?s2 w ?room1"
    using assms(3) [unfolded j] by blast+
  have sp: "spectators ?room1 = Set_add w (spectators room)"
    by (simp add: enqueueSpectator_def)
  have q: "specQueue ?room1 =
             (if ?dev \<noteq> [] \<and> ?dev \<notin> set (specQueue room) then specQueue room @ [?dev] else specQueue room)"
    by (simp add: enqueueSpectator_def)
  have m: "w \<in> set (spectators ?room1)" by (simp add: sp Set_add_def)
  then have "spectators ?room1 \<noteq> []" by auto
  then have l: "0 < length (spectators ?room1)" by simp
  then have i: "?idx = 2 + (length (spectators ?room1) - 1)" by simp
  have r: "rooms s' ?k = Some ?room1" by (simp add: s' put_room_def)
  have ro: "roleIdx (conns s' w) = Some ?idx" by (simp add: s' put_room_def)
  have o: "readyState (conns s w) = OPEN \<Longrightarrow> \<exists>rest. out = (w, Role ?idx) # rest"
    by (simp add: out send_def put_room_def)
  have e: "spectators room = [] \<Longrightarrow> ?idx = 2" by (simp add: sp Set_add_def)
  from r m sp q ro o e i show ?thesis by (metis (no_types, lifting))
qed

theorem join_spectator_witness:
  "rooms (run (init_server None) pair_run) (str_or (Some ''r1'') ''room1'') = Some pair_room \<and>
   \<not> reclaim_ok pair_room 0 (str_or (Some ''d3'') []) 5 \<and> \<not> fresh_ok pair_room 0 5 \<and>
   \<not> reclaim_ok pair_room 1 (str_or (Some ''d3'') []) 5 \<and> \<not> fresh_ok pair_room 1 5 \<and>
   roleIdx (conns (fst (on_join (run (init_server None) pair_run) 9 (Some ''r1'') (Some ''d3'') 5)) 9) = Some 2"
proof -
  let ?s = "run (init_server None) pair_run"
  obtain s' out where e: "on_join ?s 9 (Some ''r1'') (Some ''d3'') 5 = (s', out)"
    by (cases "on_join ?s 9 (Some ''r1'') (Some ''d3'') 5")
  have h1: "rooms ?s (str_or (Some ''r1'') ''room1'') = Some pair_room"
    by (simp add: str_or_def pair_run_room)
  have h2: "\<forall>r<2. \<not> reclaim_ok pair_room r (str_or (Some ''d3'') []) 5 \<and> \<not> fresh_ok pair_room r 5"
    by (simp add: reclaim_ok_def fresh_ok_def pair_room_def less_Suc_eq numeral_2_eq_2)
  from join_spectator [OF h1 h2 e] have "roleIdx (conns s' 9) = Some 2"
    by (auto simp: pair_room_def)
  with h1 h2 show ?thesis by (simp add: e less_Suc_eq numeral_2_eq_2)
qed

subsection \<open>C1: cleanup of an empty room\<close>

text \<open>
  C1 says that a join during the 15 minutes after a room became empty cancels the pending
  deletion. The close handler arms the timer (due at \<open>now + 900000\<close>) and is the only place
  that clears \<open>cleanupTimer\<close>; the join handler never touches it and the callback deletes
  \<open>rooms[ws.roomId]\<close> without looking at the occupants. In \<open>rejoin_run\<close> connection 7 leaves
  room \<open>r\<close> at time 1000, connection 8 joins it at time 60000 and holds slot 1; the timer is
  still pending, and when it comes due at 901000 the occupied room is removed.
\<close>

theorem cleanup_deletes_occupied_room:
  "valid_run (init_server None) (rejoin_run @ [(901000, Timeout 1)]) \<and>
   single_join_run (init_server None) (rejoin_run @ [(901000, Timeout 1)]) \<and>
   occupies (run (init_server None) rejoin_run) 8 ''r'' (Player 1) \<and>
   readyState (conns (run (init_server None) rejoin_run) 8) = OPEN \<and>
   timers (run (init_server None) rejoin_run) 1 = Some \<lparr> due = 901000, callback = RoomCleanup 7 \<rparr> \<and>
   rooms (run (init_server None) (rejoin_run @ [(901000, Timeout 1)])) ''r'' = None"
  by (simp add: rejoin_run_def occupies_def handler_defs)

subsection \<open>C3: reconnecting with the token\<close>

text \<open>
  C3, as stated, holds for every slot index. The reclaim loop tries slot 0 first: when one
  device holds both slots (two connections with the same device id), both disconnect and
  the device joins again within the lease of slot 1, with no promotion or reseat of slot 1
  in between, the new connection is seated in slot 0 and slot 1 stays empty.
\<close>

theorem reclaim_counterexample:
  "rooms (run (init_server None) same_device_run) ''r'' = Some same_device_room \<and>
   slots same_device_room ! 1 = Some 8 \<and>
   playerToken same_device_room ! 1 = Some ''D'' \<and>
   deviceId (conns (run (init_server None) same_device_run) 8) = Some ''D'' \<and>
   (3000::int) < 2000 + ROLE_LEASE_MS (run (init_server None) same_device_run) \<and>
   valid_run (init_server None) same_device_rejoin \<and>
   single_join_run (init_server None) same_device_rejoin \<and>
   roleIdx (conns (run (init_server None) same_device_rejoin) 9) = Some 0 \<and>
   map_option slots (rooms (run (init_server None) same_device_rejoin) ''r'') = Some [Some 9, None]"
proof -
  have a: "roleIdx (conns (run (init_server None) same_device_rejoin) 9) = Some 0"
    by (simp add: same_device_rejoin_def same_device_run_def handler_defs)
  have b: "map_option slots (rooms (run (init_server None) same_device_rejoin) ''r'') = Some [Some 9, None]"
    by (simp add: same_device_rejoin_def same_device_run_def handler_defs)
  have v: "valid_run (init_server None) same_device_rejoin"
    by (simp add: same_device_rejoin_def same_device_run_def handler_defs)
  have w: "single_join_run (init_server None) same_device_rejoin"
    by (simp add: same_device_rejoin_def same_device_run_def handler_defs)
  from same_device_state a b v w show ?thesis
    by (simp add: same_device_room_def)
qed

text \<open>
  C3, amended: let session \<open>w0\<close> hold slot \<open>r\<close> of room \<open>k\<close> with the non-empty token \<open>D\<close>.
  When \<open>w0\<close> disconnects at \<open>t0\<close>, the slot is empty, its token is still \<open>D\<close>, its lease
  expires at \<open>t0 + ROLE_LEASE_MS\<close> and its timer reference is the new lease timer. In any
  later state in which the room still has slot \<open>r\<close> like that (no promotion and no reseat
  of \<open>r\<close> has happened), an open connection \<open>w1\<close> that joins room \<open>k\<close> with device id \<open>D\<close> at
  \<open>t1 < t0 + ROLE_LEASE_MS\<close> is assigned slot \<open>r\<close>, provided that, for \<open>r = 1\<close>, slot 0 is
  not itself reclaimable by \<open>D\<close> at \<open>t1\<close>: the token stays \<open>D\<close>, the lease expiry is 0, the
  timer reference is cleared and the lease timer started by the disconnect is no longer
  pending; \<open>w1\<close> is sent its role, followed by the snapshot when the room has one.
\<close>

theorem reclaim_with_token:
  assumes "rooms s k = Some room" "room_wf room" "r < 2"
    and "slots room ! r = Some w0" "roomId (conns s w0) = Some k" "roleIdx (conns s w0) = Some r"
    and "playerToken room ! r = Some D" "D \<noteq> []"
    and "\<forall>h\<in>room_handles room. h < next_timer s"
  shows "(\<exists>room1. rooms (on_close s w0 t0) k = Some room1 \<and> room_wf room1 \<and>
            slots room1 ! r = None \<and> playerToken room1 ! r = Some D \<and>
            playerLeaseExpiry room1 ! r = t0 + ROLE_LEASE_MS s \<and>
            playerLeaseTimer room1 ! r = Some (next_timer s)) \<and>
         (\<forall>s2 room2 w1 mroom mdev t1.
            rooms s2 k = Some room2 \<and> room_wf room2 \<and>
            slots room2 ! r = None \<and> playerToken room2 ! r = Some D \<and>
            playerLeaseExpiry room2 ! r = t0 + ROLE_LEASE_MS s \<and>
            playerLeaseTimer room2 ! r = Some (next_timer s) \<and>
            str_or mroom ''room1'' = k \<and> str_or mdev [] = D \<and>
            t1 < t0 + ROLE_LEASE_MS s \<and> readyState (conns s2 w1) = OPEN \<and>
            (r = 1 \<longrightarrow> \<not> reclaim_ok room2 0 D t1) \<longrightarrow>
            (\<exists>room'. rooms (fst (on_join s2 w1 mroom mdev t1)) k = Some room' \<and>
               slots room' ! r = Some w1 \<and>
               roleIdx (conns (fst (on_join s2 w1 mroom mdev t1)) w1) = Some r \<and>
               playerToken room' ! r = Some D \<and> playerLeaseExpiry room' ! r = 0 \<and>
               playerLeaseTimer room' ! r = None \<and>
               timers (fst (on_join s2 w1 mroom mdev t1)) (next_timer s) = None \<and>
               (\<exists>rest. snd (on_join s2 w1 mroom mdev t1) = (w1, Role r) # rest) \<and>
               (\<forall>st. state room2 = Some st \<and> js_truthy st \<longrightarrow>
                  snd (on_join s2 w1 mroom mdev t1) = [(w1, Role r), (w1, SyncStateMsg st)])))"
proof (intro conjI allI impI)
  from on_close_player_room(1) [OF assms(1,2,5,6,3,4), of t0]
  obtain c where r1: "rooms (on_close s w0 t0) k =
           Some (room\<lparr> slots := (slots room)[r := None],
                       playerLeaseExpiry := (playerLeaseExpiry room)[r := t0 + ROLE_LEASE_MS s],
                       playerLeaseTimer := (playerLeaseTimer room)[r := Some (next_timer s)],
                       cleanupTimer := c \<rparr>)"
    by blast
  have len: "r < length (slots room)" "r < length (playerLeaseExpiry room)"
    "r < length (playerLeaseTimer room)" "r < length (playerToken room)"
    using assms(2,3) by (simp_all add: room_wf_def)
  from r1 len assms(2,7)
  show "\<exists>room1. rooms (on_close s w0 t0) k = Some room1 \<and> room_wf room1 \<and>
            slots room1 ! r = None \<and> playerToken room1 ! r = Some D \<and>
            playerLeaseExpiry room1 ! r = t0 + ROLE_LEASE_MS s \<and>
            playerLeaseTimer room1 ! r = Some (next_timer s)"
    by (simp add: room_wf_def)
next
  fix s2 :: server and room2 w1 mroom mdev t1
  assume a: "rooms s2 k = Some room2 \<and> room_wf room2 \<and>
            slots room2 ! r = None \<and> playerToken room2 ! r = Some D \<and>
            playerLeaseExpiry room2 ! r = t0 + ROLE_LEASE_MS s \<and>
            playerLeaseTimer room2 ! r = Some (next_timer s) \<and>
            str_or mroom ''room1'' = k \<and> str_or mdev [] = D \<and>
            t1 < t0 + ROLE_LEASE_MS s \<and> readyState (conns s2 w1) = OPEN \<and>
            (r = 1 \<longrightarrow> \<not> reclaim_ok room2 0 D t1)"
  then have e: "playerLeaseExpiry room2 ! r = 0 \<or> t1 < playerLeaseExpiry room2 ! r" by simp
  from a have b: "rooms s2 k = Some room2" "room_wf room2" "slots room2 ! r = None"
    "playerToken room2 ! r = Some D" "playerLeaseTimer room2 ! r = Some (next_timer s)"
    "str_or mroom ''room1'' = k" "str_or mdev [] = D" "readyState (conns s2 w1) = OPEN"
    "r = 1 \<longrightarrow> \<not> reclaim_ok room2 0 D t1"
    by simp_all
  from join_reclaims_slot [OF b(1,2) assms(3) b(3,4) assms(8) e b(5,6,7,8,9)]
  show "\<exists>room'. rooms (fst (on_join s2 w1 mroom mdev t1)) k = Some room' \<and>
               slots room' ! r = Some w1 \<and>
               roleIdx (conns (fst (on_join s2 w1 mroom mdev t1)) w1) = Some r \<and>
               playerToken room' ! r = Some D \<and> playerLeaseExpiry room' ! r = 0 \<and>
               playerLeaseTimer room' ! r = None \<and>
               timers (fst (on_join s2 w1 mroom mdev t1)) (next_timer s) = None \<and>
               (\<exists>rest. snd (on_join s2 w1 mroom mdev t1) = (w1, Role r) # rest) \<and>
               (\<forall>st. state room2 = Some st \<and> js_truthy st \<longrightarrow>
                  snd (on_join s2 w1 mroom mdev t1) = [(w1, Role r), (w1, SyncStateMsg st)])"
    by (auto simp: clearTimeout_def)
qed

theorem reclaim_with_token_witness:
  "rooms (run (init_server None) pair_run) ''r1'' = Some pair_room \<and>
   room_wf pair_room \<and> (1::nat) < 2 \<and>
   slots pair_room ! 1 = Some 8 \<and>
   roomId (conns (run (init_server None) pair_run) 8) = Some ''r1'' \<and>
   roleIdx (conns (run (init_server None) pair_run) 8) = Some 1 \<and>
   playerToken pair_room ! 1 = Some ''d2'' \<and> ''d2'' \<noteq> [] \<and>
   room_handles pair_room = {} \<and>
   rooms (on_close (run (init_server None) pair_run) 8 2000) ''r1'' = Some pair_closed_room \<and>
   room_wf pair_closed_room \<and> slots pair_closed_room ! 1 = None \<and>
   playerToken pair_closed_room ! 1 = Some ''d2'' \<and>
   playerLeaseExpiry pair_closed_room ! 1 = 2000 + ROLE_LEASE_MS (run (init_server None) pair_run) \<and>
   playerLeaseTimer pair_closed_room ! 1 = Some (next_timer (run (init_server None) pair_run)) \<and>
   str_or (Some ''r1'') ''room1'' = ''r1'' \<and> str_or (Some ''d2'') [] = ''d2'' \<and>
   (50000::int) < 2000 + ROLE_LEASE_MS (run (init_server None) pair_run) \<and>
   readyState (conns (on_close (run (init_server None) pair_run) 8 2000) 9) = OPEN \<and>
   \<not> reclaim_ok pair_closed_room 0 ''d2'' 50000 \<and>
   roleIdx (conns (fst (on_join (on_close (run (init_server None) pair_run) 8 2000) 9
                          (Some ''r1'') (Some ''d2'') 50000)) 9) = Some 1"
proof -
  let ?s = "run (init_server None) pair_run"
  let ?s2 = "on_close ?s 8 2000"
  have h1: "rooms ?s ''r1'' = Some pair_room" by (rule pair_run_room)
  have h2: "room_wf pair_room" by (simp add: room_wf_def pair_room_def)
  have h3: "(1::nat) < 2" by simp
  have h4: "slots pair_room ! 1 = Some 8" by (simp add: pair_room_def)
  have h5: "roomId (conns ?s 8) = Some ''r1''" using pair_run_more(1) by simp
  have h6: "roleIdx (conns ?s 8) = Some 1" using pair_run_more(1) by simp
  have h7: "playerToken pair_room ! 1 = Some ''d2''" by (simp add: pair_room_def)
  have h8: "''d2'' \<noteq> []" by simp
  have g9: "room_handles pair_room = {}" by (simp add: room_handles_def pair_room_def)
  then have h9: "\<forall>h\<in>room_handles pair_room. h < next_timer ?s" by simp
  have p1: "rooms ?s2 ''r1'' = Some pair_closed_room" by (rule pair_close_state)
  have p2: "room_wf pair_closed_room" by (simp add: room_wf_def pair_closed_room_def)
  have p3: "slots pair_closed_room ! 1 = None" by (simp add: pair_closed_room_def)
  have p4: "playerToken pair_closed_room ! 1 = Some ''d2''" by (simp add: pair_closed_room_def)
  have p5: "playerLeaseExpiry pair_closed_room ! 1 = 2000 + ROLE_LEASE_MS ?s"
    using pair_run_more(3) by (simp add: pair_closed_room_def)
  have p6: "playerLeaseTimer pair_closed_room ! 1 = Some (next_timer ?s)"
    using pair_run_more(4) by (simp add: pair_closed_room_def)
  have p7: "str_or (Some ''r1'') ''room1'' = ''r1''" by (simp add: str_or_def)
  have p8: "str_or (Some ''d2'') [] = ''d2''" by (simp add: str_or_def)
  have p9: "(50000::int) < 2000 + ROLE_LEASE_MS ?s" using pair_run_more(3) by simp
  have p10: "readyState (conns ?s2 9) = OPEN" by (rule pair_close_state)
  have p11: "\<not> reclaim_ok pair_closed_room 0 ''d2'' 50000"
    by (simp add: reclaim_ok_def pair_closed_room_def)
  from reclaim_with_token [OF h1 h2 h3 h4 h5 h6 h7 h8 h9, of 2000]
  have "\<forall>s2 room2 w1 mroom mdev t1.
            rooms s2 ''r1'' = Some room2 \<and> room_wf room2 \<and>
            slots room2 ! 1 = None \<and> playerToken room2 ! 1 = Some ''d2'' \<and>
            playerLeaseExpiry room2 ! 1 = 2000 + ROLE_LEASE_MS ?s \<and>
            playerLeaseTimer room2 ! 1 = Some (next_timer ?s) \<and>
            str_or mroom ''room1'' = ''r1'' \<and> str_or mdev [] = ''d2'' \<and>
            t1 < 2000 + ROLE_LEASE_MS ?s \<and> readyState (conns s2 w1) = OPEN \<and>
            ((1::nat) = 1 \<longrightarrow> \<not> reclaim_ok room2 0 ''d2'' t1) \<longrightarrow>
            (\<exists>room'. rooms (fst (on_join s2 w1 mroom mdev t1)) ''r1'' = Some room' \<and>
               slots room' ! 1 = Some w1 \<and>
               roleIdx (conns (fst (on_join s2 w1 mroom mdev t1)) w1) = Some 1)"
    by blast
  with p1 p2 p3 p4 p5 p6 p7 p8 p9 p10 p11
  have "roleIdx (conns (fst (on_join ?s2 9 (Some ''r1'') (Some ''d2'') 50000)) 9) = Some 1"
    by blast
  with h1 h2 h3 h4 h5 h6 h7 h8 g9 p1 p2 p3 p4 p5 p6 p7 p8 p9 p10 p11 show ?thesis by blast
qed

subsection \<open>C4: lease expiry without spectators\<close>

text \<open>
  C4, as stated, gives slot \<open>r\<close> to the next joining connection whatever its device id. The
  join handler first runs the reclaim loop over both slots, then the fresh-seat loop from
  slot 0: in \<open>two_vacant_rejoin\<close> the lease of slot 0 has run out with no spectator and its
  token is cleared, but the next connection to join carries the token of the vacant slot 1,
  whose lease is still running; it is seated in slot 1 and slot 0 stays empty.
\<close>

theorem lease_expiry_counterexample:
  "rooms (run (init_server None) two_vacant_run) ''r'' = Some two_vacant_room \<and>
   slots two_vacant_room ! 0 = None \<and> specQueue two_vacant_room = [] \<and>
   timers (run (init_server None) two_vacant_run) 0 = Some \<lparr> due = 91000, callback = LeaseExpire ''r'' 0 \<rparr> \<and>
   valid_run (init_server None) two_vacant_rejoin \<and>
   single_join_run (init_server None) two_vacant_rejoin \<and>
   roleIdx (conns (run (init_server None) two_vacant_rejoin) 9) = Some 1 \<and>
   map_option slots (rooms (run (init_server None) two_vacant_rejoin) ''r'') = Some [None, Some 9] \<and>
   map_option playerToken (rooms (run (init_server None) two_vacant_rejoin) ''r'') = Some [None, Some ''b'']"
proof -
  have a: "roleIdx (conns (run (init_server None) two_vacant_rejoin) 9) = Some 1"
    by (simp add: two_vacant_rejoin_def two_vacant_run_def run_defs)
  have b: "map_option slots (rooms (run (init_server None) two_vacant_rejoin) ''r'') = Some [None, Some 9]"
    by (simp add: two_vacant_rejoin_def two_vacant_run_def run_defs)
  have c: "map_option playerToken (rooms (run (init_server None) two_vacant_rejoin) ''r'') = Some [None, Some ''b'']"
    by (simp add: two_vacant_rejoin_def two_vacant_run_def run_defs)
  have v: "valid_run (init_server None) two_vacant_rejoin"
    by (simp add: two_vacant_rejoin_def two_vacant_run_def run_defs)
  have w: "single_join_run (init_server None) two_vacant_rejoin"
    by (simp add: two_vacant_rejoin_def two_vacant_run_def run_defs)
  from two_vacant_state a b c v w show ?thesis
    by (simp add: two_vacant_room_def)
qed

text \<open>
  C4, amended: when the lease timer of the empty slot \<open>r\<close> comes due and no queued id has a
  live spectator, the expiry clears \<open>playerToken[r]\<close>, resets \<open>playerLeaseExpiry[r]\<close> to 0,
  clears the timer reference and sends nothing. In any later state in which the room still
  has slot \<open>r\<close> empty with no token and expiry 0, a connection that joins the room, with
  any device id, is assigned slot \<open>r\<close> through the fresh-seat loop (no reclaim condition
  holds for it and the fresh-seat condition of \<open>r\<close> does), provided no other slot comes
  first: the other slot is not reclaimable with its device id and, for \<open>r = 1\<close>, slot 0 is
  not a fresh seat. The slot's token becomes the device id of the newcomer, or null when
  that is empty.
\<close>

theorem lease_expiry_frees_slot:
  assumes "rooms s k = Some room" "room_wf room" "r < 2" "slots room ! r = None"
    and "timers s h = Some tm" "callback tm = LeaseExpire k r"
    and "\<forall>d\<in>set (specQueue room). \<not> has_live (conns s) room d"
  shows "(\<exists>room1. rooms (fst (on_timeout s h)) k = Some room1 \<and> room_wf room1 \<and>
            snd (on_timeout s h) = [] \<and>
            slots room1 ! r = None \<and> playerToken room1 ! r = None \<and>
            playerLeaseExpiry room1 ! r = 0 \<and> playerLeaseTimer room1 ! r = None) \<and>
         (\<forall>s2 room2 w mroom mdev t.
            rooms s2 k = Some room2 \<and> room_wf room2 \<and>
            slots room2 ! r = None \<and> playerToken room2 ! r = None \<and>
            playerLeaseExpiry room2 ! r = 0 \<and>
            str_or mroom ''room1'' = k \<and> \<not> reclaim_ok room2 (1 - r) (str_or mdev []) t \<and>
            (r = 1 \<longrightarrow> \<not> fresh_ok room2 0 t) \<longrightarrow>
            (\<forall>r'<2. \<not> reclaim_ok room2 r' (str_or mdev []) t) \<and> fresh_ok room2 r t \<and>
            (\<exists>room3. rooms (fst (on_join s2 w mroom mdev t)) k = Some room3 \<and>
               slots room3 ! r = Some w \<and> playerToken room3 ! r = device_token (str_or mdev [])) \<and>
            roleIdx (conns (fst (on_join s2 w mroom mdev t)) w) = Some r)"
proof (rule conjI)
  let ?room1 = "room\<lparr> specQueue := [],
                     playerToken := (playerToken room)[r := None],
                     playerLeaseExpiry := (playerLeaseExpiry room)[r := 0],
                     playerLeaseTimer := (playerLeaseTimer room)[r := None] \<rparr>"
  let ?s1 = "put_room (s\<lparr> timers := (timers s)(h := None) \<rparr>) k ?room1"
  have t: "on_timeout s h = (?s1, [])" using assms by (rule on_timeout_discard)
  have len: "r < length (slots room)" "r < length (playerLeaseExpiry room)"
    "r < length (playerLeaseTimer room)" "r < length (playerToken room)"
    using assms(2,3) by (simp_all add: room_wf_def)
  have "rooms ?s1 k = Some ?room1 \<and> room_wf ?room1 \<and> slots ?room1 ! r = None \<and>
      playerToken ?room1 ! r = None \<and> playerLeaseExpiry ?room1 ! r = 0 \<and>
      playerLeaseTimer ?room1 ! r = None"
    using len assms(2,4) by (simp add: put_room_def room_wf_def)
  then show "\<exists>room1. rooms (fst (on_timeout s h)) k = Some room1 \<and> room_wf room1 \<and>
            snd (on_timeout s h) = [] \<and>
            slots room1 ! r = None \<and> playerToken room1 ! r = None \<and>
            playerLeaseExpiry room1 ! r = 0 \<and> playerLeaseTimer room1 ! r = None"
    unfolding t fst_conv snd_conv by blast
next
  show "\<forall>s2 room2 w mroom mdev t.
            rooms s2 k = Some room2 \<and> room_wf room2 \<and>
            slots room2 ! r = None \<and> playerToken room2 ! r = None \<and>
            playerLeaseExpiry room2 ! r = 0 \<and>
            str_or mroom ''room1'' = k \<and> \<not> reclaim_ok room2 (1 - r) (str_or mdev []) t \<and>
            (r = 1 \<longrightarrow> \<not> fresh_ok room2 0 t) \<longrightarrow>
            (\<forall>r'<2. \<not> reclaim_ok room2 r' (str_or mdev []) t) \<and> fresh_ok room2 r t \<and>
            (\<exists>room3. rooms (fst (on_join s2 w mroom mdev t)) k = Some room3 \<and>
               slots room3 ! r = Some w \<and> playerToken room3 ! r = device_token (str_or mdev [])) \<and>
            roleIdx (conns (fst (on_join s2 w mroom mdev t)) w) = Some r"
    using assms(3) by (intro allI impI join_fresh_slot) simp_all
qed

theorem lease_expiry_frees_slot_witness:
  "rooms (run (init_server None) two_vacant_run) ''r'' = Some two_vacant_room \<and>
   room_wf two_vacant_room \<and> (0::nat) < 2 \<and> slots two_vacant_room ! 0 = None \<and>
   timers (run (init_server None) two_vacant_run) 0 = Some \<lparr> due = 91000, callback = LeaseExpire ''r'' 0 \<rparr> \<and>
   callback \<lparr> due = 91000, callback = LeaseExpire ''r'' 0 \<rparr> = LeaseExpire ''r'' 0 \<and>
   specQueue two_vacant_room = [] \<and>
   rooms (fst (on_timeout (run (init_server None) two_vacant_run) 0)) ''r'' = Some two_vacant_expired_room \<and>
   room_wf two_vacant_expired_room \<and> slots two_vacant_expired_room ! 0 = None \<and>
   playerToken two_vacant_expired_room ! 0 = None \<and> playerLeaseExpiry two_vacant_expired_room ! 0 = 0 \<and>
   str_or (Some ''r'') ''room1'' = ''r'' \<and>
   \<not> reclaim_ok two_vacant_expired_room (1 - 0) (str_or (Some ''c'') []) 100000 \<and>
   (0::nat) \<noteq> 1 \<and>
   roleIdx (conns (fst (on_join (fst (on_timeout (run (init_server None) two_vacant_run) 0)) 9
                          (Some ''r'') (Some ''c'') 100000)) 9) = Some 0"
proof -
  let ?s = "run (init_server None) two_vacant_run"
  let ?s2 = "fst (on_timeout ?s 0)"
  have h1: "rooms ?s ''r'' = Some two_vacant_room" by (rule two_vacant_state)
  have h2: "room_wf two_vacant_room" by (simp add: room_wf_def two_vacant_room_def)
  have h3: "(0::nat) < 2" by simp
  have h4: "slots two_vacant_room ! 0 = None" by (simp add: two_vacant_room_def)
  have h5: "timers ?s 0 = Some \<lparr> due = 91000, callback = LeaseExpire ''r'' 0 \<rparr>" by (rule two_vacant_state)
  have h6: "callback \<lparr> due = 91000, callback = LeaseExpire ''r'' 0 \<rparr> = LeaseExpire ''r'' 0" by simp
  have g7: "specQueue two_vacant_room = []" by (simp add: two_vacant_room_def)
  then have h7: "\<forall>d\<in>set (specQueue two_vacant_room). \<not> has_live (conns ?s) two_vacant_room d" by simp
  have p1: "rooms ?s2 ''r'' = Some two_vacant_expired_room"
    unfolding on_timeout_discard [OF h1 h2 h3 h4 h5 h6 h7]
    by (simp add: put_room_def two_vacant_room_def two_vacant_expired_room_def)
  have p2: "room_wf two_vacant_expired_room" by (simp add: room_wf_def two_vacant_expired_room_def)
  have p3: "slots two_vacant_expired_room ! 0 = None" by (simp add: two_vacant_expired_room_def)
  have p4: "playerToken two_vacant_expired_room ! 0 = None" by (simp add: two_vacant_expired_room_def)
  have p5: "playerLeaseExpiry two_vacant_expired_room ! 0 = 0" by (simp add: two_vacant_expired_room_def)
  have p6: "str_or (Some ''r'') ''room1'' = ''r''" by (simp add: str_or_def)
  have p7: "\<not> reclaim_ok two_vacant_expired_room (1 - 0) (str_or (Some ''c'') []) 100000"
    by (simp add: reclaim_ok_def two_vacant_expired_room_def str_or_def)
  have p8: "(0::nat) \<noteq> 1" by simp
  from lease_expiry_frees_slot [OF h1 h2 h3 h4 h5 h6 h7]
  have "\<forall>s2 room2 w mroom mdev t.
            rooms s2 ''r'' = Some room2 \<and> room_wf room2 \<and>
            slots room2 ! 0 = None \<and> playerToken room2 ! 0 = None \<and>
            playerLeaseExpiry room2 ! 0 = 0 \<and>
            str_or mroom ''room1'' = ''r'' \<and> \<not> reclaim_ok room2 (1 - 0) (str_or mdev []) t \<and>
            ((0::nat) = 1 \<longrightarrow> \<not> fresh_ok room2 0 t) \<longrightarrow>
            roleIdx (conns (fst (on_join s2 w mroom mdev t)) w) = Some 0"
    by blast
  with p1 p2 p3 p4 p5 p6 p7 p8
  have "roleIdx (conns (fst (on_join ?s2 9 (Some ''r'') (Some ''c'') 100000)) 9) = Some 0"
    by blast
  with h1 h2 h3 h4 h5 h6 g7 p1 p2 p3 p4 p5 p6 p7 p8 show ?thesis by blast
qed

subsection \<open>C10: a player without device id\<close>

text \<open>
  C10: a connection that joins with an empty device id and is seated in slot \<open>r\<close> leaves
  \<open>playerToken[r]\<close> null, not the empty string. After it disconnects at \<open>t1\<close> (with
  \<open>Date.now()\<close> not negative and a positive \<open>ROLE_LEASE_MS\<close>) the slot is empty, the token
  is still null and the lease expires at \<open>t1 + ROLE_LEASE_MS\<close>. In every state in which the
  room has slot \<open>r\<close> like that, the reclaim condition of \<open>r\<close> fails for every device id at
  every time; before \<open>t1 + ROLE_LEASE_MS\<close> the fresh-seat condition of \<open>r\<close> fails too, and
  a join of the room by any connection leaves slot \<open>r\<close> empty, with the same token and
  expiry, so the same holds for the next join; from \<open>t1 + ROLE_LEASE_MS\<close> on the fresh-seat
  condition holds. Within the window only the promotion of \<open>onLeaseExpire\<close> can fill the
  slot.
\<close>

theorem empty_device_no_reclaim:
  assumes "\<forall>room. rooms s k = Some room \<longrightarrow> room_wf room"
    and "str_or mroom ''room1'' = k" "str_or mdev [] = []"
    and "on_join s w mroom mdev t0 = (s1, out1)"
    and "r < 2" "roleIdx (conns s1 w) = Some r"
    and "0 \<le> t1" "0 < ROLE_LEASE_MS s"
  shows "(\<exists>room1 room2.
            rooms s1 k = Some room1 \<and> slots room1 ! r = Some w \<and> playerToken room1 ! r = None \<and>
            rooms (on_close s1 w t1) k = Some room2 \<and> room_wf room2 \<and> slots room2 ! r = None \<and>
            playerToken room2 ! r = None \<and> playerLeaseExpiry room2 ! r = t1 + ROLE_LEASE_MS s) \<and>
         (\<forall>s2 room3 w' mroom' mdev' t.
            rooms s2 k = Some room3 \<and> room_wf room3 \<and> slots room3 ! r = None \<and>
            playerToken room3 ! r = None \<and> playerLeaseExpiry room3 ! r = t1 + ROLE_LEASE_MS s \<and>
            str_or mroom' ''room1'' = k \<longrightarrow>
            (\<forall>dev. \<not> reclaim_ok room3 r dev t) \<and>
            (t1 + ROLE_LEASE_MS s \<le> t \<longrightarrow> fresh_ok room3 r t) \<and>
            (t < t1 + ROLE_LEASE_MS s \<longrightarrow>
               \<not> fresh_ok room3 r t \<and>
               (\<exists>room4. rooms (fst (on_join s2 w' mroom' mdev' t)) k = Some room4 \<and> room_wf room4 \<and>
                  slots room4 ! r = None \<and> playerToken room4 ! r = None \<and>
                  playerLeaseExpiry room4 ! r = t1 + ROLE_LEASE_MS s)))"
proof (rule conjI)
  from on_join_seated [OF assms(4,6,5)] assms(2,3)
  obtain s0 room where g: "getOrCreateRoom s k t0 = (s0, room)"
    and st: "seat (join_fields s0 w k []) k room r w = (s1, out1)"
    by auto
  note G = getOrCreateRoom_cases [OF g assms(1)]
  note S = seat_room [OF G(2) assms(5) st]
  from S(1) obtain room1 where r1: "rooms s1 k = Some room1" "room_wf room1" "slots room1 ! r = Some w"
    "playerToken room1 ! r = (case deviceId (conns (join_fields s0 w k []) w) of None \<Rightarrow> None | Some d \<Rightarrow> device_token d)"
    by blast
  have tok: "playerToken room1 ! r = None" using r1(4) by (simp add: device_token_def)
  have cs: "conns s1 = (conns (join_fields s0 w k []))(w := (conns (join_fields s0 w k []) w)\<lparr>roleIdx := Some r\<rparr>)"
    using seat_frame(2) [of "join_fields s0 w k []" k room r w] st by simp
  have rid: "roomId (conns s1 w) = Some k" by (simp add: cs join_fields_def)
  have L: "ROLE_LEASE_MS s1 = ROLE_LEASE_MS s"
    using seat_frame(4) [of "join_fields s0 w k []" k room r w] st G(4) by (simp add: join_fields_def)
  from on_close_player_room [OF r1(1,2) rid assms(6,5) r1(3), of t1] L
  obtain c where r2: "rooms (on_close s1 w t1) k =
           Some (room1\<lparr> slots := (slots room1)[r := None],
                       playerLeaseExpiry := (playerLeaseExpiry room1)[r := t1 + ROLE_LEASE_MS s],
                       playerLeaseTimer := (playerLeaseTimer room1)[r := Some (next_timer s1)],
                       cleanupTimer := c \<rparr>)" (is "_ = Some ?room2")
    by auto
  have len: "r < length (slots room1)" "r < length (playerLeaseExpiry room1)"
    "r < length (playerLeaseTimer room1)" "r < length (playerToken room1)"
    using r1(2) assms(5) by (simp_all add: room_wf_def)
  have "room_wf ?room2 \<and> slots ?room2 ! r = None \<and> playerToken ?room2 ! r = None \<and>
    playerLeaseExpiry ?room2 ! r = t1 + ROLE_LEASE_MS s"
    using len tok r1(2) by (simp add: room_wf_def)
  with r1(1,3) tok r2
  show "\<exists>room1 room2.
            rooms s1 k = Some room1 \<and> slots room1 ! r = Some w \<and> playerToken room1 ! r = None \<and>
            rooms (on_close s1 w t1) k = Some room2 \<and> room_wf room2 \<and> slots room2 ! r = None \<and>
            playerToken room2 ! r = None \<and> playerLeaseExpiry room2 ! r = t1 + ROLE_LEASE_MS s"
    by blast
next
  show "\<forall>s2 room3 w' mroom' mdev' t.
            rooms s2 k = Some room3 \<and> room_wf room3 \<and> slots room3 ! r = None \<and>
            playerToken room3 ! r = None \<and> playerLeaseExpiry room3 ! r = t1 + ROLE_LEASE_MS s \<and>
            str_or mroom' ''room1'' = k \<longrightarrow>
            (\<forall>dev. \<not> reclaim_ok room3 r dev t) \<and>
            (t1 + ROLE_LEASE_MS s \<le> t \<longrightarrow> fresh_ok room3 r t) \<and>
            (t < t1 + ROLE_LEASE_MS s \<longrightarrow>
               \<not> fresh_ok room3 r t \<and>
               (\<exists>room4. rooms (fst (on_join s2 w' mroom' mdev' t)) k = Some room4 \<and> room_wf room4 \<and>
                  slots room4 ! r = None \<and> playerToken room4 ! r = None \<and>
                  playerLeaseExpiry room4 ! r = t1 + ROLE_LEASE_MS s))"
  proof (intro allI impI, elim conjE)
    fix s2 :: server and room3 w' mroom' mdev' t
    assume a: "rooms s2 k = Some room3" "room_wf room3" "slots room3 ! r = None"
      "playerToken room3 ! r = None" "playerLeaseExpiry room3 ! r = t1 + ROLE_LEASE_MS s"
      "str_or mroom' ''room1'' = k"
    have nr: "\<not> reclaim_ok room3 r dev t" for dev t using a(4) by (simp add: reclaim_ok_def)
    have fr: "t1 + ROLE_LEASE_MS s \<le> t \<longrightarrow> fresh_ok room3 r t"
      using a(3,5) by (simp add: fresh_ok_def)
    have w: "\<not> fresh_ok room3 r t \<and>
               (\<exists>room4. rooms (fst (on_join s2 w' mroom' mdev' t)) k = Some room4 \<and> room_wf room4 \<and>
                  slots room4 ! r = None \<and> playerToken room4 ! r = None \<and>
                  playerLeaseExpiry room4 ! r = t1 + ROLE_LEASE_MS s)"
      if lt: "t < t1 + ROLE_LEASE_MS s"
    proof -
      have nf: "\<not> fresh_ok room3 r t" using a(5) lt assms(7,8) by (simp add: fresh_ok_def)
      have k': "rooms s2 (str_or mroom' ''room1'') = Some room3" using a(1,6) by simp
      from on_join_slot_kept [OF k' a(2) assms(5) nr nf, where w = w' and mdev = mdev'] a(3,4,5,6) nf
      show ?thesis by simp
    qed
    from nr fr w
    show "(\<forall>dev. \<not> reclaim_ok room3 r dev t) \<and>
            (t1 + ROLE_LEASE_MS s \<le> t \<longrightarrow> fresh_ok room3 r t) \<and>
            (t < t1 + ROLE_LEASE_MS s \<longrightarrow>
               \<not> fresh_ok room3 r t \<and>
               (\<exists>room4. rooms (fst (on_join s2 w' mroom' mdev' t)) k = Some room4 \<and> room_wf room4 \<and>
                  slots room4 ! r = None \<and> playerToken room4 ! r = None \<and>
                  playerLeaseExpiry room4 ! r = t1 + ROLE_LEASE_MS s))"
      by blast
  qed
qed

theorem empty_device_no_reclaim_witness:
  "rooms (run (init_server None) fresh_pair_run) ''room1'' = None \<and>
   str_or None ''room1'' = ''room1'' \<and> str_or None [] = [] \<and> (0::nat) < 2 \<and>
   roleIdx (conns (fst (on_join (run (init_server None) fresh_pair_run) 7 None None 5)) 7) = Some 0 \<and>
   (0::int) \<le> 1000 \<and> 0 < ROLE_LEASE_MS (run (init_server None) fresh_pair_run) \<and>
   (2000::int) < 1000 + ROLE_LEASE_MS (run (init_server None) fresh_pair_run) \<and>
   (\<exists>room4. rooms (fst (on_join (on_close (fst (on_join (run (init_server None) fresh_pair_run) 7 None None 5)) 7 1000)
                            8 None None 2000)) ''room1'' = Some room4 \<and> slots room4 ! 0 = None)"
proof -
  let ?s = "run (init_server None) fresh_pair_run"
  obtain s1 out1 where e: "on_join ?s 7 None None 5 = (s1, out1)" by (cases "on_join ?s 7 None None 5")
  have g1: "rooms ?s ''room1'' = None" by (simp add: fresh_pair_state)
  then have h1: "\<forall>room. rooms ?s ''room1'' = Some room \<longrightarrow> room_wf room" by simp
  have h2: "str_or None ''room1'' = ''room1''" by (simp add: str_or_def)
  have h3: "str_or None [] = []" by (simp add: str_or_def)
  have h5: "(0::nat) < 2" by simp
  have h6: "roleIdx (conns s1 7) = Some 0"
    using e fresh_pair_state(1)
    by (auto simp: on_join_def str_or_def getOrCreateRoom_def Let_def new_room_def reclaim_ok_def fresh_ok_def
        seat_def assignRole_def put_room_def)
  have h7: "(0::int) \<le> 1000" by simp
  have h8: "0 < ROLE_LEASE_MS ?s" by (simp add: fresh_pair_state)
  have lt: "(2000::int) < 1000 + ROLE_LEASE_MS ?s" by (simp add: fresh_pair_state)
  note T = empty_device_no_reclaim [OF h1 h2 h3 e h5 h6 h7 h8]
  from T obtain room2 where r2: "rooms (on_close s1 7 1000) ''room1'' = Some room2" "room_wf room2"
    "slots room2 ! 0 = None" "playerToken room2 ! 0 = None"
    "playerLeaseExpiry room2 ! 0 = 1000 + ROLE_LEASE_MS ?s"
    by blast
  from T have "\<forall>s2 room3 w' mroom' mdev'.
            rooms s2 ''room1'' = Some room3 \<and> room_wf room3 \<and> slots room3 ! 0 = None \<and>
            playerToken room3 ! 0 = None \<and> playerLeaseExpiry room3 ! 0 = 1000 + ROLE_LEASE_MS ?s \<and>
            str_or mroom' ''room1'' = ''room1'' \<longrightarrow>
            (2000 < 1000 + ROLE_LEASE_MS ?s \<longrightarrow>
               (\<exists>room4. rooms (fst (on_join s2 w' mroom' mdev' 2000)) ''room1'' = Some room4 \<and>
                  slots room4 ! 0 = None))"
    by blast
  with r2 h2 lt
  have "\<exists>room4. rooms (fst (on_join (on_close s1 7 1000) 8 None None 2000)) ''room1'' = Some room4 \<and>
      slots room4 ! 0 = None"
    by blast
  with g1 h2 h3 h5 h6 h7 h8 lt show ?thesis by (simp add: e)
qed

end
